theory Spec2Isabelle
  imports Complex_Main
begin

section \<open>The interaction layer of the flatmap viewer\<close>

text \<open>
  The development embeds the \<open>UserInteractions\<close> controller of the flatmap viewer.
  The repository holds two versions of the controller: the annotation-oriented one
  (\<open>src/src/interactions.js\<close>, called variant A below) and the general viewer
  (\<open>src/unnamed/part_000\<close>, variant B). A function that is the same text in both
  versions is embedded once; a function that differs is embedded twice, with the
  suffixes \<open>_A\<close> and \<open>_B\<close>. The source names end in an underscore, which
  is not a name in Isabelle, so \<open>selectFeature_\<close> is \<open>selectFeature\<close> here.
\<close>

subsection \<open>Geometry utilities\<close>

text \<open>
  A bounding box is the four-element array \<open>[west, south, east, north]\<close>. Its
  components are finite JavaScript numbers; \<open>Math.min\<close> and \<open>Math.max\<close> on such
  numbers are the minimum and maximum of the reals they denote (no rounding).
\<close>

type_synonym bbox = "real \<times> real \<times> real \<times> real"

fun expandBounds :: "bbox \<Rightarrow> bbox \<Rightarrow> bbox" where
  "expandBounds (a0, a1, a2, a3) (b0, b1, b2, b3) =
     (min a0 b0, min a1 b1, max a2 b2, max a3 b3)"

subsection \<open>Strings\<close>

text \<open>
  \<open>String.prototype.includes\<close>: the argument occurs at some position of the string.
\<close>

fun str_includes :: "string \<Rightarrow> string \<Rightarrow> bool" where
  "str_includes [] sub = (sub = [])"
| "str_includes (c # cs) sub = (take (length sub) (c # cs) = sub \<or> str_includes cs sub)"

text \<open>
  \<open>String.prototype.split\<close> with a one-character separator: the pieces between the
  occurrences of the separator, empty pieces kept; the empty string splits into one
  empty piece. The first branch of the \<open>case\<close> is never taken
  (\<open>str_split\<close> returns at least one piece).
\<close>

fun str_split :: "char \<Rightarrow> string \<Rightarrow> string list" where
  "str_split sep [] = [[]]"
| "str_split sep (c # cs) =
     (if c = sep then [] # str_split sep cs
      else (case str_split sep cs of [] \<Rightarrow> [[c]] | w # ws \<Rightarrow> (c # w) # ws))"

text \<open>\<open>Array.prototype.join\<close> on an array of strings.\<close>

fun str_join :: "string \<Rightarrow> string list \<Rightarrow> string" where
  "str_join sep [] = []"
| "str_join sep [w] = w"
| "str_join sep (w # v # ws) = w @ sep @ str_join sep (v # ws)"

text \<open>
  \<open>String.prototype.split\<close> with the regular expression for a run of white space:
  the pieces between the maximal runs of white space. A character of a string is a
  code unit below 256; the white-space class of JavaScript has seven of them: tab,
  line feed, vertical tab, form feed, carriage return, space and the no-break space.
\<close>

definition isSpace :: "char \<Rightarrow> bool" where
  "isSpace c =
     (c \<in> set [CHR '' '', CHR 0x09, CHR 0x0A, CHR 0x0B, CHR 0x0C, CHR 0x0D, CHR 0xA0])"

function splitSpaces :: "string \<Rightarrow> string \<Rightarrow> string list" where
  "splitSpaces w [] = [w]"
| "splitSpaces w (c # cs) =
     (if isSpace c then w # splitSpaces [] (dropWhile isSpace cs)
      else splitSpaces (w @ [c]) cs)"
  by pat_completeness auto
termination
  by (relation "measure (\<lambda>(w, cs). length cs)")
     (auto simp: length_dropWhile_le less_Suc_eq_le)

subsection \<open>Data model\<close>

datatype error = TypeError

type_synonym point = "real \<times> real"
type_synonym lnglat = "real \<times> real"

text \<open>
  A feature as the map engine returns it from \<open>queryRenderedFeatures\<close>. The fields
  are the ones the controller reads: \<open>feature.id\<close>, \<open>feature.sourceLayer\<close>,
  \<open>feature.layer.id\<close>, \<open>feature.layer.type\<close>, \<open>feature.geometry.type\<close> and
  the properties \<open>id\<close>, \<open>label\<close>, \<open>area\<close>, \<open>bounds\<close> and \<open>bbox\<close>. A property that
  may be absent is an \<open>option\<close>; \<open>bounds\<close> and \<open>bbox\<close> hold a serialised box,
  modelled by the box \<open>JSON.parse\<close> returns for it. The source tests both whether the
  key \<open>bounds\<close> is present and whether its value is truthy, so \<open>prop_bounds\<close> is
  \<open>None\<close> for an absent key, \<open>Some None\<close> for a key with an empty or null value and
  \<open>Some (Some b)\<close> for a key that holds a box.
\<close>

record feature =
  featureId :: string
  sourceLayer :: string
  layerId :: string
  layerType :: string
  geometryType :: string
  prop_id :: "string option"
  prop_label :: "string option"
  prop_area :: real
  prop_bounds :: "bbox option option"
  prop_bbox :: "bbox option"

text \<open>
  The feature-state store of the map engine is keyed by the layer and the id of a
  feature; the set and remove calls read nothing else of the feature passed to them.
\<close>

type_synonym fref = "string \<times> string"

definition ref :: "feature \<Rightarrow> fref" where
  "ref f = (sourceLayer f, featureId f)"

text \<open>
  Modelled from the spec: \<open>utils.mapFeature(layer, id)\<close> is defined in \<open>utils.js\<close>,
  which is not among the sources. The spec keys the feature-state store by
  ``a stable (layer, feature-id) identity''; \<open>mapFeature\<close> builds that key.
\<close>

definition mapFeature :: "string \<Rightarrow> string \<Rightarrow> fref" where
  "mapFeature layer ident = (layer, ident)"

text \<open>The record \<open>getAnnotation(id)\<close> returns.\<close>

record annotation =
  ann_featureId :: string
  ann_label :: "string option"
  ann_models :: "string list"
  ann_text :: string
  ann_layer :: string
  ann_url :: "string option"
  ann_error :: "string option"

text \<open>
  The record \<open>annotation(id)\<close> returns (variant B). Its \<open>bounds\<close> are optional:
  \<open>None\<close> is a record without them, where \<open>properties.bounds\<close> is undefined.
\<close>

record ann_properties =
  ap_layer :: string
  ap_bounds :: "bbox option"
  ap_centroid :: lnglat

record event =
  point :: point
  lngLat :: lnglat

datatype js_value = Str string | Bool bool | Undefined

text \<open>
  The box a loop holds and \<open>map.fitBounds\<close> receives: \<open>null\<close>, \<open>undefined\<close> or a
  box.
\<close>

datatype js_box = BoxNull | BoxUndefined | Box bbox

datatype tooltip_content = Values "js_value list" | Html string

datatype action = Query string | ZoomTo feature

datatype menu_item = Separator | Item "string option" string action

text \<open>
  What the controller only reads: the host flatmap, the layer manager, the rendered
  scene and the imported geometry functions. \<open>queryRenderedFeatures None\<close> is the call
  with \<open>null\<close> for the point. An id handed to \<open>getAnnotation\<close> or
  \<open>modelsForFeature\<close> is whatever the property or the DOM attribute holds, so it may
  be absent. \<open>annotating\<close> is \<open>this.annotating\<close>, \<open>infoControl\<close> is
  \<open>this._infoControl\<close> (\<open>null\<close> or an object with \<open>featureInformation\<close>).
\<close>

record env =
  getAnnotation :: "string option \<Rightarrow> annotation option"
  annotation :: "string \<Rightarrow> ann_properties option"
  modelsForFeature :: "string option \<Rightarrow> string list"
  queryRenderedFeatures :: "point option \<Rightarrow> feature list"
  activeLayerNames :: "string list"
  layerQueryable :: "string \<Rightarrow> bool"
  turfArea :: "feature \<Rightarrow> real"
  turfBBox :: "feature \<Rightarrow> bbox"
  annotating :: bool
  infoControl :: "(feature list \<Rightarrow> string) option"
  options_tooltips :: bool

text \<open>
  The controller's own fields, followed by the state of its collaborators as far as the
  controller drives it: the feature-state store (the flags set on each feature), the
  cursor of the canvas, the tooltip (the \<open>ToolTip\<close> of variant A, the popup of
  variant B), the context menu, and the calls made to \<open>map.fitBounds\<close>
  (box, padding, animate), to the query interface (type, url, models), to
  \<open>flatmap.callback\<close> (event name, models) and to the layer manager's \<open>addLayer\<close>
  (layer id, ids of its background layers). \<open>layerSwitcher\<close> is
  \<open>this._layerSwitcher\<close>: \<open>None\<close> while the field is undefined, else whether the
  widget is open.
\<close>

record ui =
  selectedFeature :: "feature option"
  activeFeature :: "feature option"
  highlightedFeatures :: "fref list"
  inQuery :: bool
  modal :: bool
  lastContextTime :: int
  lastTouchTime :: int
  layerSwitcher :: "bool option"
  featureState :: "fref \<Rightarrow> string set"
  cursor :: string
  tooltip :: "(lnglat \<times> tooltip_content) option"
  contextMenu :: "(lnglat \<times> menu_item list) option"
  fitBoundsCalls :: "(js_box \<times> real \<times> bool) list"
  queryCalls :: "(string \<times> string option \<times> string list) list"
  callbacks :: "(string \<times> string list) list"
  addedLayers :: "(string \<times> string list) list"

type_synonym result = "(error \<times> ui) + ui"

subsection \<open>The feature-state store\<close>

definition setFeatureState :: "ui \<Rightarrow> fref \<Rightarrow> string \<Rightarrow> ui" where
  "setFeatureState s r flag =
     s\<lparr>featureState := (featureState s)(r := insert flag (featureState s r))\<rparr>"

definition removeFeatureState :: "ui \<Rightarrow> fref \<Rightarrow> string \<Rightarrow> ui" where
  "removeFeatureState s r flag =
     s\<lparr>featureState := (featureState s)(r := featureState s r - {flag})\<rparr>"

subsection \<open>Bounding box of a feature\<close>

text \<open>
  \<open>bounds(feature)\<close>: the value of the \<open>bounds\<close> property if the feature has the
  key, else the value of the \<open>bbox\<close> property; the box parsed from that value if it is
  truthy, else the box \<open>turfBBox\<close> computes from the geometry.
\<close>

definition bounds :: "env \<Rightarrow> feature \<Rightarrow> bbox" where
  "bounds e f =
     (case (case prop_bounds f of Some v \<Rightarrow> v | None \<Rightarrow> prop_bbox f) of
        Some b \<Rightarrow> b
      | None \<Rightarrow> turfBBox e f)"

subsection \<open>Selection and highlighting\<close>

definition unselectFeatures :: "ui \<Rightarrow> bool \<Rightarrow> ui" where
  "unselectFeatures s reset =
     (case selectedFeature s of
        None \<Rightarrow> s
      | Some f \<Rightarrow>
          (let s1 = removeFeatureState s (ref f) ''selected''
           in if reset then s1\<lparr>selectedFeature := None\<rparr> else s1))"

definition selectFeature :: "ui \<Rightarrow> feature \<Rightarrow> ui" where
  "selectFeature s f =
     (let s1 = unselectFeatures s False;
          s2 = setFeatureState s1 (ref f) ''selected''
      in s2\<lparr>selectedFeature := Some f\<rparr>)"

definition selectedFeatureLayerName :: "ui \<Rightarrow> string option" where
  "selectedFeatureLayerName s =
     (case selectedFeature s of
        Some f \<Rightarrow>
          (let lid = layerId f
           in if str_includes lid ''-''
              then Some (str_join ''-'' (butlast (str_split CHR ''-'' lid)))
              else Some lid)
      | None \<Rightarrow> None)"

text \<open>\<open>highlightFeature_\<close> exists in variant B only.\<close>

definition highlightFeature :: "ui \<Rightarrow> fref \<Rightarrow> ui" where
  "highlightFeature s r =
     (let s1 = setFeatureState s r ''highlighted''
      in s1\<lparr>highlightedFeatures := highlightedFeatures s1 @ [r]\<rparr>)"

definition unhighlightFeatures :: "ui \<Rightarrow> ui" where
  "unhighlightFeatures s =
     (fold (\<lambda>r st. removeFeatureState st r ''highlighted'') (highlightedFeatures s) s)
       \<lparr>highlightedFeatures := []\<rparr>"

subsection \<open>Resolving the feature under an event\<close>

definition activeFeaturesAtEvent :: "env \<Rightarrow> event \<Rightarrow> feature list" where
  "activeFeaturesAtEvent e ev =
     filter (\<lambda>f. sourceLayer f \<in> set (activeLayerNames e) \<and> prop_id f \<noteq> None)
       (queryRenderedFeatures e (Some (point ev)))"

text \<open>
  The loop of \<open>smallestAnnotatedPolygonFeature_\<close>, with its two variables
  \<open>smallestArea\<close> and \<open>smallestFeature\<close>. \<open>turfArea\<close> returns a finite number.
\<close>

fun smallestLoop :: "env \<Rightarrow> ui \<Rightarrow> real \<Rightarrow> feature option \<Rightarrow> feature list \<Rightarrow> feature option" where
  "smallestLoop e s smallestArea smallestFeature [] = smallestFeature"
| "smallestLoop e s smallestArea smallestFeature (f # fs) =
     (if str_includes (geometryType f) ''Polygon'' \<and> ''annotated'' \<in> featureState s (ref f)
      then (let area = turfArea e f
            in if smallestFeature = None \<or> smallestArea > area
               then smallestLoop e s area (Some f) fs
               else smallestLoop e s smallestArea smallestFeature fs)
      else smallestLoop e s smallestArea smallestFeature fs)"

definition smallestAnnotatedPolygonFeature :: "env \<Rightarrow> ui \<Rightarrow> feature list \<Rightarrow> feature option" where
  "smallestAnnotatedPolygonFeature e s features = smallestLoop e s 0 None features"

text \<open>\<open>smallestAnnotatedPolygonAtEvent_\<close> exists in variant A only.\<close>

definition smallestAnnotatedPolygonAtEvent :: "env \<Rightarrow> ui \<Rightarrow> event \<Rightarrow> feature option" where
  "smallestAnnotatedPolygonAtEvent e s ev =
     smallestAnnotatedPolygonFeature e s (activeFeaturesAtEvent e ev)"

subsection \<open>Tooltip and mouse movement, variant A\<close>

text \<open>
  \<open>showTooltip_\<close> returns its result and the state it leaves. The content of the
  tooltip is the list of values passed to the \<open>tooltip\<close> helper.
\<close>

definition showTooltip :: "env \<Rightarrow> ui \<Rightarrow> lnglat \<Rightarrow> feature \<Rightarrow> bool \<times> ui" where
  "showTooltip e s position f =
     (let ident = prop_id f;
          ann = getAnnotation e ident;
          s1 = selectFeature s f;
          (res, s2) =
            (if annotating e then
               (case ann of
                  Some a \<Rightarrow>
                    (True, s1\<lparr>tooltip := Some (position, Values
                       ([Str (ann_featureId a),
                         (case ann_label a of Some l \<Rightarrow> Str l | None \<Rightarrow> Undefined)]
                        @ map Str (splitSpaces [] (ann_text a))
                        @ [Str (case ann_error a of Some x \<Rightarrow> x | None \<Rightarrow> [])]))\<rparr>)
                | None \<Rightarrow>
                    (True, s1\<lparr>tooltip := Some (position, Values
                       [(case ident of Some i \<Rightarrow> Str i | None \<Rightarrow> Undefined),
                        (if ''annotated'' \<in> featureState s1 (ref f) then Bool True
                         else Undefined)])\<rparr>))
             else
               (case ann of
                  Some a \<Rightarrow>
                    (let models = ann_models a
                     in if models \<noteq> [] then
                          (True, s1\<lparr>tooltip := Some (position, Values
                             [Str (case ann_label a of
                                     Some l \<Rightarrow> if l \<noteq> [] then l else hd models
                                   | None \<Rightarrow> hd models)])\<rparr>)
                        else if layerQueryable e (ann_layer a) then (True, s1)
                        else (False, s1))
                | None \<Rightarrow> (False, s1)))
      in (res, if res \<and> \<not> inQuery s2 then s2\<lparr>cursor := ''pointer''\<rparr> else s2))"

definition mouseMoveEvent_A :: "env \<Rightarrow> ui \<Rightarrow> event \<Rightarrow> ui" where
  "mouseMoveEvent_A e s ev =
     (if modal s then s
      else
        (let features = activeFeaturesAtEvent e ev;
             found = smallestAnnotatedPolygonFeature e s features;
             feature = (if found = None \<and> annotating e \<and> features \<noteq> []
                        then Some (hd features) else found);
             (shown, s1) = (case feature of
                              None \<Rightarrow> (False, s)
                            | Some f \<Rightarrow> showTooltip e s (lngLat ev) f)
         in if feature = None \<or> \<not> shown then
              (let s2 = (if \<not> inQuery s1 then s1\<lparr>cursor := []\<rparr> else s1);
                   s3 = s2\<lparr>tooltip := None\<rparr>
               in unselectFeatures s3 True)
            else s1))"

subsection \<open>Tooltip and mouse movement, variant B\<close>

definition removeTooltip :: "ui \<Rightarrow> ui" where
  "removeTooltip s = (case tooltip s of Some t \<Rightarrow> s\<lparr>tooltip := None\<rparr> | None \<Rightarrow> s)"

text \<open>
  The labelled features are sorted by their \<open>area\<close> property with the comparator
  \<open>a.properties.area - b.properties.area\<close>; the sort is stable, as \<open>sort_key\<close> is.
\<close>

definition mouseMoveEvent_B :: "env \<Rightarrow> ui \<Rightarrow> event \<Rightarrow> ui" where
  "mouseMoveEvent_B e s ev =
     (let s1 = removeTooltip s;
          s2 = s1\<lparr>cursor := ''default''\<rparr>;
          s3 = (case activeFeature s2 of
                  Some f \<Rightarrow> (removeFeatureState s2 (ref f) ''active'')\<lparr>activeFeature := None\<rparr>
                | None \<Rightarrow> s2);
          features = queryRenderedFeatures e (Some (point ev))
      in if features = [] then s3
         else
           (let html0 = (case infoControl e of
                           Some info \<Rightarrow> info features
                         | None \<Rightarrow> []);
                (html, s4) =
                  (if html0 = [] then
                     (case sort_key prop_area (filter (\<lambda>f. prop_label f \<noteq> None) features) of
                        [] \<Rightarrow> (html0, s3)
                      | f # rest \<Rightarrow>
                          (let s5 = setFeatureState (s3\<lparr>activeFeature := Some f\<rparr>) (ref f) ''active''
                           in if layerType f = ''symbol'' then (html0, s5\<lparr>cursor := ''pointer''\<rparr>)
                              else if options_tooltips e then
                                (''<div class='' @ [CHR 0x27] @ ''flatmap-feature-label''
                                   @ [CHR 0x27] @ ''>''
                                   @ (case prop_label f of Some l \<Rightarrow> l | None \<Rightarrow> [])
                                   @ ''</div>'', s5)
                              else (html0, s5)))
                   else (html0, s3))
            in if html \<noteq> [] then s4\<lparr>tooltip := Some (lngLat ev, Html html)\<rparr> else s4))"

subsection \<open>Context menu\<close>

text \<open>
  The item list \<open>contextMenuEvent_\<close> builds for the feature it resolved, with the
  feature's \<open>id\<close> property and the annotation found for it (the same text in both
  variants).
\<close>

definition contextMenuItems :: "env \<Rightarrow> string option \<Rightarrow> annotation option \<Rightarrow> feature \<Rightarrow> menu_item list" where
  "contextMenuItems e ident ann f =
     (let items1 =
            (case ann of
               Some a \<Rightarrow>
                 (let i1 = (if length (ann_models a) > 0
                            then [Item ident ''Search for knowledge about node'' (Query ''data'')]
                            else [])
                  in if layerQueryable e (ann_layer a)
                     then i1 @ [Item ident ''Find edges connected to node'' (Query ''edges''),
                                Item ident ''Find nodes and edges connected to node'' (Query ''nodes'')]
                     else i1)
             | None \<Rightarrow> []);
          items2 = (if items1 \<noteq> [] then items1 @ [Separator] else items1)
      in items2 @ [Item ident ''Zoom to...'' (ZoomTo f)])"

text \<open>
  \<open>now\<close> is the value of \<open>Date.now()\<close> while the handler runs.
  \<open>event.preventDefault()\<close> acts on the event only.
\<close>

definition contextMenuEvent_A :: "env \<Rightarrow> ui \<Rightarrow> event \<Rightarrow> int \<Rightarrow> ui" where
  "contextMenuEvent_A e s ev now =
     (if now < lastContextTime s + 100 then s
      else
        (let s1 = s\<lparr>lastContextTime := now\<rparr>;
             features = activeFeaturesAtEvent e ev
         in case smallestAnnotatedPolygonFeature e s1 features of
              Some f \<Rightarrow>
                (let ident = prop_id f;
                     ann = getAnnotation e ident;
                     s2 = selectFeature s1 f;
                     s3 = s2\<lparr>tooltip := None\<rparr>;
                     items = contextMenuItems e ident ann f
                 in if items \<noteq> []
                    then s3\<lparr>modal := True, contextMenu := Some (lngLat ev, items)\<rparr>
                    else s3)
            | None \<Rightarrow> s1))"

definition contextMenuEvent_B :: "env \<Rightarrow> ui \<Rightarrow> event \<Rightarrow> int \<Rightarrow> ui" where
  "contextMenuEvent_B e s ev now =
     (if now < lastContextTime s + 100 then s
      else
        (let s1 = s\<lparr>lastContextTime := now\<rparr>;
             features = activeFeaturesAtEvent e ev
         in case smallestAnnotatedPolygonFeature e s1 features of
              Some f \<Rightarrow>
                (let ident = prop_id f;
                     ann = getAnnotation e ident;
                     s2 = selectFeature s1 f;
                     items = contextMenuItems e ident ann f
                 in if items \<noteq> []
                    then s2\<lparr>modal := True, contextMenu := Some (lngLat ev, items)\<rparr>
                    else s2)
            | None \<Rightarrow> s1))"

definition contextMenuClosed :: "ui \<Rightarrow> ui" where
  "contextMenuClosed s = s\<lparr>modal := False\<rparr>"

subsection \<open>Touch handlers\<close>

text \<open>The two handlers the constructor registers for \<open>touchstart\<close> and \<open>touchend\<close>.\<close>

definition touchstart :: "ui \<Rightarrow> int \<Rightarrow> ui" where
  "touchstart s now = s\<lparr>lastTouchTime := now\<rparr>"

definition touchend_A :: "env \<Rightarrow> ui \<Rightarrow> event \<Rightarrow> int \<Rightarrow> ui" where
  "touchend_A e s ev now =
     (if now > lastTouchTime s + 500 then contextMenuEvent_A e s ev now else s)"

definition touchend_B :: "env \<Rightarrow> ui \<Rightarrow> event \<Rightarrow> int \<Rightarrow> ui" where
  "touchend_B e s ev now =
     (if now > lastTouchTime s + 500 then contextMenuEvent_B e s ev now else s)"

subsection \<open>Zooming\<close>

definition zoomTo_A :: "env \<Rightarrow> ui \<Rightarrow> feature \<Rightarrow> ui" where
  "zoomTo_A e s f =
     (let s1 = s\<lparr>contextMenu := None\<rparr>
      in s1\<lparr>fitBoundsCalls := fitBoundsCalls s1 @ [(Box (bounds e f), 100, False)]\<rparr>)"

definition zoomTo_B :: "env \<Rightarrow> ui \<Rightarrow> feature \<Rightarrow> ui" where
  "zoomTo_B e s f =
     (let s1 = s\<lparr>contextMenu := None\<rparr>;
          s2 = unhighlightFeatures s1;
          s3 = highlightFeature s2 (ref f)
      in s3\<lparr>fitBoundsCalls := fitBoundsCalls s3 @ [(Box (bounds e f), 100, False)]\<rparr>)"

text \<open>
  The loop of \<open>zoomToFeatures\<close> in variant A, over the features found. Its variable
  \<open>bbox\<close> is \<open>null\<close> (\<open>None\<close>) or a box: \<open>bounds(feature)\<close> returns a box.
\<close>

fun zoomLoop_A :: "env \<Rightarrow> ui \<Rightarrow> bbox option \<Rightarrow> feature list \<Rightarrow> ui \<times> bbox option" where
  "zoomLoop_A e s bbox [] = (s, bbox)"
| "zoomLoop_A e s bbox (f # fs) =
     (let s1 = setFeatureState s (ref f) ''highlighted'';
          s2 = s1\<lparr>highlightedFeatures := highlightedFeatures s1 @ [ref f]\<rparr>
      in zoomLoop_A e s2
           (Some (case bbox of None \<Rightarrow> bounds e f | Some b \<Rightarrow> expandBounds b (bounds e f))) fs)"

text \<open>
  Variant A asks the map for the rendered features that pass the filter
  \<open>['in', 'id', ...featureIds]\<close>: those whose \<open>id\<close> property is one of the ids.
\<close>

definition zoomToFeatures_A :: "env \<Rightarrow> ui \<Rightarrow> string list \<Rightarrow> ui" where
  "zoomToFeatures_A e s featureIds =
     (let s1 = unhighlightFeatures s
      in if featureIds \<noteq> [] then
           (let features = filter (\<lambda>f. case prop_id f of
                                          Some i \<Rightarrow> i \<in> set featureIds
                                        | None \<Rightarrow> False)
                             (queryRenderedFeatures e None)
            in if features \<noteq> [] then
                 (let (s2, bbox) = zoomLoop_A e s1 None features
                  in s2\<lparr>fitBoundsCalls := fitBoundsCalls s2 @
                          [((case bbox of None \<Rightarrow> BoxNull | Some b \<Rightarrow> Box b), 100, False)]\<rparr>)
               else s1)
         else s1)"

text \<open>
  The loop of \<open>zoomToFeatures\<close> in variant B, over the ids. For a record without
  bounds the variable \<open>bbox\<close> becomes \<open>undefined\<close> when it was \<open>null\<close>; otherwise
  \<open>expandBounds\<close> is called, and it raises a \<open>TypeError\<close> when it indexes an
  undefined argument, after the feature has been highlighted.
\<close>

fun zoomLoop_B :: "env \<Rightarrow> ui \<Rightarrow> js_box \<Rightarrow> string list \<Rightarrow> (error \<times> ui) + (ui \<times> js_box)" where
  "zoomLoop_B e s bbox [] = Inr (s, bbox)"
| "zoomLoop_B e s bbox (fid # ids) =
     (case annotation e fid of
        Some properties \<Rightarrow>
          (let s1 = highlightFeature s (mapFeature (ap_layer properties) fid);
               bnds = ap_bounds properties
           in case bbox of
                BoxNull \<Rightarrow>
                  zoomLoop_B e s1 (case bnds of Some b \<Rightarrow> Box b | None \<Rightarrow> BoxUndefined) ids
              | BoxUndefined \<Rightarrow> Inl (TypeError, s1)
              | Box c \<Rightarrow>
                  (case bnds of
                     Some b \<Rightarrow> zoomLoop_B e s1 (Box (expandBounds c b)) ids
                   | None \<Rightarrow> Inl (TypeError, s1)))
      | None \<Rightarrow> zoomLoop_B e s bbox ids)"

text \<open>
  The second argument of \<open>zoomToFeatures\<close> in variant B is optional, with the
  default 100.
\<close>

definition zoomToFeatures_B :: "env \<Rightarrow> ui \<Rightarrow> string list \<Rightarrow> real option \<Rightarrow> result" where
  "zoomToFeatures_B e s featureIds pad =
     (let padding = (case pad of Some p \<Rightarrow> p | None \<Rightarrow> 100);
          s1 = unhighlightFeatures s
      in if featureIds \<noteq> [] then
           (case zoomLoop_B e s1 BoxNull featureIds of
              Inl x \<Rightarrow> Inl x
            | Inr (s2, bbox) \<Rightarrow>
                Inr (s2\<lparr>fitBoundsCalls := fitBoundsCalls s2 @ [(bbox, padding, False)]\<rparr>))
         else Inr s1)"

subsection \<open>Queries and clicks\<close>

text \<open>
  \<open>queryData_\<close> calls \<open>flatmap.callback('query-data', modelList, ...)\<close>; the call is
  recorded with its event name and model list.
\<close>

definition queryData :: "ui \<Rightarrow> string list \<Rightarrow> ui" where
  "queryData s modelList =
     (if length modelList > 0
      then s\<lparr>callbacks := callbacks s @ [(''query-data'', modelList)]\<rparr>
      else s)"

text \<open>
  \<open>query_(type, event)\<close>; \<open>fid\<close> is the source's \<open>featureId\<close>, the value of
  \<open>event.target.getAttribute('id')\<close>. In
  variant A a missing annotation makes \<open>ann.url\<close> raise a \<open>TypeError\<close>, after the
  highlights are cleared and the menu is hidden. In variant B the call of the query
  interface is commented out, and \<open>ann\<close> is not read.
\<close>

definition query_A :: "env \<Rightarrow> ui \<Rightarrow> string \<Rightarrow> string option \<Rightarrow> result" where
  "query_A e s qtype fid =
     (let s1 = unhighlightFeatures s;
          s2 = s1\<lparr>contextMenu := None\<rparr>
      in if qtype = ''data''
         then Inr ((queryData s2 (modelsForFeature e fid))\<lparr>modal := False\<rparr>)
         else (case getAnnotation e fid of
                 None \<Rightarrow> Inl (TypeError, s2)
               | Some ann \<Rightarrow>
                   Inr (s2\<lparr>queryCalls := queryCalls s2 @ [(qtype, ann_url ann, ann_models ann)],
                           cursor := ''progress'',
                           inQuery := True,
                           modal := False\<rparr>)))"

definition query_B :: "env \<Rightarrow> ui \<Rightarrow> string \<Rightarrow> string option \<Rightarrow> ui" where
  "query_B e s qtype fid =
     (let s1 = unhighlightFeatures s;
          s2 = s1\<lparr>contextMenu := None\<rparr>;
          s3 = (if qtype = ''data''
                then queryData s2 (modelsForFeature e fid)
                else s2\<lparr>cursor := ''progress'', inQuery := True\<rparr>)
      in s3\<lparr>modal := False\<rparr>)"

text \<open>
  \<open>clickEvent_\<close> of variant A. Its first statement calls \<open>close\<close> on
  \<open>this._layerSwitcher\<close>, which raises a \<open>TypeError\<close> when the field is undefined.
\<close>

definition clickEvent_A :: "env \<Rightarrow> ui \<Rightarrow> event \<Rightarrow> result" where
  "clickEvent_A e s ev =
     (case layerSwitcher s of
        None \<Rightarrow> Inl (TypeError, s)
      | Some opened \<Rightarrow>
          (let s1 = s\<lparr>layerSwitcher := Some False\<rparr>;
               s2 = (case smallestAnnotatedPolygonAtEvent e s1 ev of
                       Some f \<Rightarrow>
                         (let fid = prop_id f;
                              s3 = selectFeature s1 f
                          in queryData s3 (modelsForFeature e fid))
                     | None \<Rightarrow> s1)
           in Inr (unhighlightFeatures s2)))"

subsection \<open>Construction\<close>

record layer =
  layer_id :: string
  background_for :: "string option"

text \<open>The state the constructor's assignments give, before its loops run.\<close>

definition initial :: ui where
  "initial =
     \<lparr>selectedFeature = None, activeFeature = None, highlightedFeatures = [],
      inQuery = False, modal = False, lastContextTime = 0, lastTouchTime = 0,
      layerSwitcher = None, featureState = (\<lambda>r. {}), cursor = [], tooltip = None,
      contextMenu = None, fitBoundsCalls = [], queryCalls = [], callbacks = [],
      addedLayers = []\<rparr>"

definition truthy :: "string option \<Rightarrow> bool" where
  "truthy x = (case x of Some v \<Rightarrow> v \<noteq> [] | None \<Rightarrow> False)"

text \<open>
  The layers pushed to \<open>backgroundLayers\<close> of the layer at position \<open>i\<close>:
  \<open>layersById\<close> keeps, for an id, the last layer declared with it.
\<close>

definition backgroundLayers :: "layer list \<Rightarrow> nat \<Rightarrow> string list" where
  "backgroundLayers layers i =
     (if layer_id (layers ! i) \<in> set (map layer_id (drop (Suc i) layers)) then []
      else map layer_id
             (filter (\<lambda>b. truthy (background_for b)
                         \<and> background_for b = Some (layer_id (layers ! i))) layers))"

definition flagAnnotation :: "ui \<Rightarrow> string \<times> annotation \<Rightarrow> ui" where
  "flagAnnotation s entry =
     (let feature = mapFeature (ann_layer (snd entry)) (fst entry);
          s1 = setFeatureState s feature ''annotated''
      in if ann_error (snd entry) \<noteq> None
         then setFeatureState s1 feature ''annotation-error''
         else s1)"

text \<open>
  The constructor, for the layers and the annotations of the flatmap. A layer that is
  the background of an undeclared layer makes \<open>l.backgroundLayers\<close> raise a
  \<open>TypeError\<close>. No statement of the class assigns \<open>this._layerSwitcher\<close>.
\<close>

definition constructor :: "layer list \<Rightarrow> (string \<times> annotation) list \<Rightarrow> result" where
  "constructor layers annotations =
     (if \<exists>l \<in> set layers. truthy (background_for l)
            \<and> background_for l \<notin> set (map (\<lambda>k. Some (layer_id k)) layers)
      then Inl (TypeError, initial)
      else
        (let layerBackgroundIds =
               map layer_id (filter (\<lambda>l. truthy (background_for l)) layers);
             s1 = initial\<lparr>addedLayers :=
                    map (\<lambda>i. (layer_id (layers ! i), backgroundLayers layers i))
                      (filter (\<lambda>i. layer_id (layers ! i) \<notin> set layerBackgroundIds)
                         [0..<length layers])\<rparr>
         in Inr (fold (\<lambda>entry st. flagAnnotation st entry) annotations s1)))"

subsection \<open>Specification vocabulary\<close>

text \<open>
  The candidates of the smallest-polygon search, in the words of the spec: the features
  whose geometry type is a polygon type and that are flagged \<open>annotated\<close> in the
  state store.
\<close>

definition candidates :: "ui \<Rightarrow> feature list \<Rightarrow> feature list" where
  "candidates s fs = filter (\<lambda>f. str_includes (geometryType f) ''Polygon''
                         \<and> ''annotated'' \<in> featureState s (ref f)) fs"

text \<open>
  \<open>firstMin e cs r\<close>: \<open>r\<close> occurs in \<open>cs\<close>, every element before that occurrence
  has a strictly larger area and every element after it has an area at least as large.
  So \<open>r\<close> has the minimum area, and it is the first element that has it.
\<close>

definition firstMin :: "env \<Rightarrow> feature list \<Rightarrow> feature \<Rightarrow> bool" where
  "firstMin e cs r = (\<exists>pre post. cs = pre @ r # post
      \<and> (\<forall>c \<in> set pre. turfArea e r < turfArea e c)
      \<and> (\<forall>c \<in> set post. turfArea e r \<le> turfArea e c))"

text \<open>
  A call of \<open>selectFeature_\<close> or of \<open>unselectFeatures_\<close>, a sequence of such calls
  run from a state, and the argument of the most recent \<open>selectFeature_\<close> call of a
  sequence.
\<close>

datatype sel_call = SelectFeature feature | UnselectFeatures bool

fun sel_step :: "ui \<Rightarrow> sel_call \<Rightarrow> ui" where
  "sel_step s (SelectFeature f) = selectFeature s f"
| "sel_step s (UnselectFeatures reset) = unselectFeatures s reset"

definition run_calls :: "ui \<Rightarrow> sel_call list \<Rightarrow> ui" where
  "run_calls s calls = foldl sel_step s calls"

fun lastSelected :: "sel_call list \<Rightarrow> feature option" where
  "lastSelected [] = None"
| "lastSelected (c # cs) =
     (case lastSelected cs of
        Some f \<Rightarrow> Some f
      | None \<Rightarrow> (case c of SelectFeature f \<Rightarrow> Some f | UnselectFeatures reset \<Rightarrow> None))"

text \<open>
  Every feature that carries the \<open>selected\<close> flag is the feature the controller holds
  in \<open>_selectedFeature\<close>.
\<close>

definition selection_inv :: "ui \<Rightarrow> bool" where
  "selection_inv s = (\<forall>r. ''selected'' \<in> featureState s r \<longrightarrow>
       (\<exists>f. selectedFeature s = Some f \<and> r = ref f))"

text \<open>
  The item list of the context menu in the words of the spec: a query-data item if the
  annotation has models, the two edge and node items if the owning layer is queryable,
  a separator if any item was added, and always the trailing zoom item.
\<close>

definition specMenuItems :: "bool \<Rightarrow> bool \<Rightarrow> string option \<Rightarrow> feature \<Rightarrow> menu_item list" where
  "specMenuItems hasModels queryable ident f =
     (if hasModels then [Item ident ''Search for knowledge about node'' (Query ''data'')] else [])
     @ (if queryable
        then [Item ident ''Find edges connected to node'' (Query ''edges''),
              Item ident ''Find nodes and edges connected to node'' (Query ''nodes'')]
        else [])
     @ (if hasModels \<or> queryable then [Separator] else [])
     @ [Item ident ''Zoom to...'' (ZoomTo f)]"

definition hasModels :: "annotation option \<Rightarrow> bool" where
  "hasModels ann = (case ann of Some a \<Rightarrow> ann_models a \<noteq> [] | None \<Rightarrow> False)"

definition onQueryableLayer :: "env \<Rightarrow> annotation option \<Rightarrow> bool" where
  "onQueryableLayer e ann = (case ann of Some a \<Rightarrow> layerQueryable e (ann_layer a) | None \<Rightarrow> False)"

text \<open>
  Zooming to a list of ids. \<open>resolved\<close> pairs each id that has an annotation record
  with its record, in the order of the ids; \<open>resolvedBoxes\<close> lists the bounds of these
  records, and \<open>allBounds\<close> says that every one of these records has bounds;
  \<open>matching\<close> is the list of rendered features variant A finds for the ids;
  \<open>boxOf\<close> is the value a loop holds for an optional box. \<open>mergeAll\<close> merges a list of boxes with
  \<open>expandBounds\<close>, from the left; \<open>mergeFrom\<close> continues from the box the loop holds.
  \<open>highlightAll\<close> sets the \<open>highlighted\<close> flag of each reference of a list and
  appends the list to the tracked highlights.
\<close>

definition resolved :: "env \<Rightarrow> string list \<Rightarrow> (string \<times> ann_properties) list" where
  "resolved e ids = List.map_filter (\<lambda>i. map_option (\<lambda>p. (i, p)) (annotation e i)) ids"

definition resolvedBoxes :: "env \<Rightarrow> string list \<Rightarrow> bbox list" where
  "resolvedBoxes e ids =
     List.map_filter (\<lambda>i. case annotation e i of Some p \<Rightarrow> ap_bounds p | None \<Rightarrow> None) ids"

definition allBounds :: "env \<Rightarrow> string list \<Rightarrow> bool" where
  "allBounds e ids = (\<forall>i \<in> set ids. \<forall>p. annotation e i = Some p \<longrightarrow> ap_bounds p \<noteq> None)"

definition boxOf :: "bbox option \<Rightarrow> js_box" where
  "boxOf b = (case b of None \<Rightarrow> BoxNull | Some c \<Rightarrow> Box c)"

definition matching :: "env \<Rightarrow> string list \<Rightarrow> feature list" where
  "matching e ids =
     filter (\<lambda>f. case prop_id f of Some i \<Rightarrow> i \<in> set ids | None \<Rightarrow> False)
       (queryRenderedFeatures e None)"

fun mergeAll :: "bbox list \<Rightarrow> bbox option" where
  "mergeAll [] = None"
| "mergeAll (b # bs) = Some (foldl expandBounds b bs)"

definition mergeFrom :: "bbox option \<Rightarrow> bbox list \<Rightarrow> bbox option" where
  "mergeFrom bbox bs = (case bbox of None \<Rightarrow> mergeAll bs | Some b \<Rightarrow> Some (foldl expandBounds b bs))"

definition highlightAll :: "ui \<Rightarrow> fref list \<Rightarrow> ui" where
  "highlightAll s rs =
     s\<lparr>featureState := (\<lambda>r. if r \<in> set rs then insert ''highlighted'' (featureState s r)
                             else featureState s r),
       highlightedFeatures := highlightedFeatures s @ rs\<rparr>"

text \<open>
  \<open>zoomed s s' rs\<close>: in \<open>s'\<close> the tracked highlights are exactly \<open>rs\<close>, each of them
  carries the \<open>highlighted\<close> flag, and every feature that was highlighted in \<open>s\<close> and
  is not in \<open>rs\<close> has lost the flag.
\<close>

definition zoomed :: "ui \<Rightarrow> ui \<Rightarrow> fref list \<Rightarrow> bool" where
  "zoomed s s' rs =
     (highlightedFeatures s' = rs
      \<and> (\<forall>r \<in> set rs. ''highlighted'' \<in> featureState s' r)
      \<and> (\<forall>r \<in> set (highlightedFeatures s). r \<notin> set rs \<longrightarrow> ''highlighted'' \<notin> featureState s' r))"

text \<open>
  \<open>afterDispatch s s'\<close>: in \<open>s'\<close> the context menu is hidden, the tracked highlights
  are empty, every feature highlighted in \<open>s\<close> has lost its flag, and the modal flag
  is false.
\<close>

definition afterDispatch :: "ui \<Rightarrow> ui \<Rightarrow> bool" where
  "afterDispatch s s' =
     (contextMenu s' = None
      \<and> highlightedFeatures s' = []
      \<and> (\<forall>r \<in> set (highlightedFeatures s). ''highlighted'' \<notin> featureState s' r)
      \<and> \<not> modal s')"

text \<open>
  The mousemove handler of variant B in two steps: \<open>resetHover\<close> is the state after its
  first three statements (tooltip removed, cursor \<open>default\<close>, active feature cleared
  with its flag), and \<open>hoverFrom\<close> is the rest of the handler, run from that state.
\<close>

definition resetHover :: "ui \<Rightarrow> ui" where
  "resetHover s =
     (case activeFeature s of
        Some f \<Rightarrow> removeFeatureState s (ref f) ''active''
      | None \<Rightarrow> s)\<lparr>tooltip := None, cursor := ''default'', activeFeature := None\<rparr>"

definition hoverFrom :: "env \<Rightarrow> ui \<Rightarrow> event \<Rightarrow> ui" where
  "hoverFrom e s3 ev =
     (let features = queryRenderedFeatures e (Some (point ev))
      in if features = [] then s3
         else
           (let html0 = (case infoControl e of
                           Some info \<Rightarrow> info features
                         | None \<Rightarrow> []);
                (html, s4) =
                  (if html0 = [] then
                     (case sort_key prop_area (filter (\<lambda>f. prop_label f \<noteq> None) features) of
                        [] \<Rightarrow> (html0, s3)
                      | f # rest \<Rightarrow>
                          (let s5 = setFeatureState (s3\<lparr>activeFeature := Some f\<rparr>) (ref f) ''active''
                           in if layerType f = ''symbol'' then (html0, s5\<lparr>cursor := ''pointer''\<rparr>)
                              else if options_tooltips e then
                                (''<div class='' @ [CHR 0x27] @ ''flatmap-feature-label''
                                   @ [CHR 0x27] @ ''>''
                                   @ (case prop_label f of Some l \<Rightarrow> l | None \<Rightarrow> [])
                                   @ ''</div>'', s5)
                              else (html0, s5)))
                   else (html0, s3))
            in if html \<noteq> [] then s4\<lparr>tooltip := Some (lngLat ev, Html html)\<rparr> else s4))"

subsection \<open>A small flatmap\<close>

text \<open>
  Three features of one layer, all annotated: \<open>A\<close> with area 100, then \<open>B\<close> and \<open>C\<close>
  with area 40 each. \<open>A\<close> has no models, \<open>B\<close> has one, and the layer is not queryable.
  At the point \<open>(1, 1)\<close> only \<open>A\<close> is rendered, elsewhere all three are.
  The ids \<open>f1\<close> and \<open>f3\<close> have annotation records with the boxes
  \<open>[0,0,10,10]\<close> and \<open>[5,5,20,20]\<close>; the id \<open>f5\<close> has a record without bounds. \<open>exUi\<close> is the controller the constructor
  builds for this flatmap.
\<close>

definition featA :: feature where
  "featA = \<lparr>featureId = ''A'', sourceLayer = ''organs'', layerId = ''organs-fill'',
            layerType = ''fill'', geometryType = ''Polygon'', prop_id = Some ''A'',
            prop_label = Some ''Thorax'', prop_area = 100,
            prop_bounds = Some (Some (0, 0, 10, 10)), prop_bbox = None\<rparr>"

definition featB :: feature where
  "featB = \<lparr>featureId = ''B'', sourceLayer = ''organs'', layerId = ''organs-fill'',
            layerType = ''fill'', geometryType = ''MultiPolygon'', prop_id = Some ''B'',
            prop_label = Some ''Heart'', prop_area = 40,
            prop_bounds = None, prop_bbox = Some (5, 5, 20, 20)\<rparr>"

definition featC :: feature where
  "featC = \<lparr>featureId = ''C'', sourceLayer = ''organs'', layerId = ''organs-left-fill'',
            layerType = ''fill'', geometryType = ''Polygon'', prop_id = Some ''C'',
            prop_label = None, prop_area = 40,
            prop_bounds = None, prop_bbox = None\<rparr>"

definition annA :: annotation where
  "annA = \<lparr>ann_featureId = ''A'', ann_label = Some ''Thorax'', ann_models = [],
           ann_text = ''the thorax'', ann_layer = ''organs'', ann_url = None,
           ann_error = None\<rparr>"

definition annB :: annotation where
  "annB = \<lparr>ann_featureId = ''B'', ann_label = Some ''Heart'',
           ann_models = [''UBERON:0000948''], ann_text = ''the heart'',
           ann_layer = ''organs'', ann_url = Some ''heart.json'', ann_error = None\<rparr>"

definition annC :: annotation where
  "annC = \<lparr>ann_featureId = ''C'', ann_label = None, ann_models = [],
           ann_text = ''a  region'', ann_layer = ''organs'', ann_url = None,
           ann_error = Some ''no models''\<rparr>"

definition exEnv :: env where
  "exEnv = \<lparr>getAnnotation = (\<lambda>i. if i = Some ''A'' then Some annA
                               else if i = Some ''B'' then Some annB
                               else if i = Some ''C'' then Some annC else None),
            annotation = (\<lambda>i. if i = ''f1'' then Some \<lparr>ap_layer = ''organs'',
                                     ap_bounds = Some (0, 0, 10, 10), ap_centroid = (5, 5)\<rparr>
                            else if i = ''f3'' then Some \<lparr>ap_layer = ''organs'',
                                     ap_bounds = Some (5, 5, 20, 20), ap_centroid = (12, 12)\<rparr>
                            else if i = ''f5'' then Some \<lparr>ap_layer = ''organs'',
                                     ap_bounds = None, ap_centroid = (1, 1)\<rparr>
                            else None),
            modelsForFeature = (\<lambda>i. if i = Some ''B'' then [''UBERON:0000948''] else []),
            queryRenderedFeatures = (\<lambda>p. if p = Some (1, 1) then [featA]
                                         else [featA, featB, featC]),
            activeLayerNames = [''organs''],
            layerQueryable = (\<lambda>l. False),
            turfArea = prop_area,
            turfBBox = (\<lambda>f. (0, 0, 1, 1)),
            annotating = False,
            infoControl = None,
            options_tooltips = True\<rparr>"

definition exUi :: ui where
  "exUi = (case constructor [\<lparr>layer_id = ''organs'', background_for = None\<rparr>]
                  [(''A'', annA), (''B'', annB), (''C'', annC)] of
             Inr s \<Rightarrow> s
           | Inl x \<Rightarrow> snd x)"

definition exEvent :: event where
  "exEvent = \<lparr>point = (3, 4), lngLat = (30, 40)\<rparr>"

definition exEventA :: event where
  "exEventA = \<lparr>point = (1, 1), lngLat = (10, 10)\<rparr>"


text \<open>
  The example controller with a context menu open on \<open>B\<close> (each variant), and after
  \<open>zoomToFeatures\<close> of variant A for the ids \<open>A\<close> and \<open>B\<close>.
\<close>

definition exMenu_A :: ui where
  "exMenu_A = contextMenuEvent_A exEnv exUi exEvent 1000"

definition exMenu_B :: ui where
  "exMenu_B = contextMenuEvent_B exEnv exUi exEvent 1000"

definition exZoomed_A :: ui where
  "exZoomed_A = zoomToFeatures_A exEnv exUi [''A'', ''B'']"

section \<open>Properties\<close>

subsection \<open>Bounds merge\<close>

text \<open>
  C9. \<open>expandBounds\<close> (the spec's \<open>mergeBounds\<close>) is a function of its two
  arguments only; it takes the component-wise minimum of the two lower corners and the
  maximum of the two upper corners, and it is commutative, associative and idempotent.
\<close>

theorem expandBounds_algebra:
  "expandBounds a b = expandBounds b a
   \<and> expandBounds (expandBounds a b) c = expandBounds a (expandBounds b c)
   \<and> expandBounds a a = a
   \<and> expandBounds a b =
       (min (fst a) (fst b), min (fst (snd a)) (fst (snd b)),
        max (fst (snd (snd a))) (fst (snd (snd b))),
        max (snd (snd (snd a))) (snd (snd (snd b))))"
proof -
  obtain a0 a1 a2 a3 where a: "a = (a0, a1, a2, a3)" by (cases a) auto
  obtain b0 b1 b2 b3 where b: "b = (b0, b1, b2, b3)" by (cases b) auto
  obtain c0 c1 c2 c3 where c: "c = (c0, c1, c2, c3)" by (cases c) auto
  have comm: "expandBounds a b = expandBounds b a"
    by (simp add: a b min.commute max.commute)
  have assoc: "expandBounds (expandBounds a b) c = expandBounds a (expandBounds b c)"
    by (simp add: a b c min.assoc max.assoc)
  have idem: "expandBounds a a = a"
    by (simp add: a)
  have comp: "expandBounds a b =
       (min (fst a) (fst b), min (fst (snd a)) (fst (snd b)),
        max (fst (snd (snd a))) (fst (snd (snd b))),
        max (snd (snd (snd a))) (snd (snd (snd b))))"
    by (simp add: a b)
  from comm assoc idem comp show ?thesis by blast
qed

subsection \<open>The example flatmap, evaluated\<close>

lemma exUi_eq:
  "exUi = initial\<lparr>addedLayers := [(''organs'', [])],
     featureState := (\<lambda>r. if r = (''organs'', ''A'') then {''annotated''}
                       else if r = (''organs'', ''B'') then {''annotated''}
                       else if r = (''organs'', ''C'') then {''annotated'', ''annotation-error''}
                       else {})\<rparr>"
  by (auto simp: exUi_def constructor_def initial_def truthy_def backgroundLayers_def
        flagAnnotation_def mapFeature_def setFeatureState_def annA_def annB_def annC_def
        Let_def fun_eq_iff)

lemma ex_smallest: "smallestAnnotatedPolygonFeature exEnv exUi [featA, featB, featC] = Some featB"
  by (simp add: smallestAnnotatedPolygonFeature_def exUi_eq initial_def exEnv_def ref_def
        featA_def featB_def featC_def Let_def)


lemma ex_candidates: "candidates exUi [featA, featB, featC] = [featA, featB, featC]"
  by (simp add: candidates_def exUi_eq initial_def ref_def featA_def featB_def featC_def)

subsection \<open>Selection\<close>

lemma lastSelected_snoc_select: "lastSelected (cs @ [SelectFeature f]) = Some f"
  by (induction cs) auto

lemma lastSelected_snoc_unselect: "lastSelected (cs @ [UnselectFeatures b]) = lastSelected cs"
  by (induction cs) auto

lemma unselect_clears:
  assumes "selection_inv s"
  shows "''selected'' \<notin> featureState (unselectFeatures s reset) r"
proof (cases "selectedFeature s")
  case None
  with assms have "''selected'' \<notin> featureState s r"
    unfolding selection_inv_def by (metis option.distinct(1))
  with None show ?thesis by (simp add: unselectFeatures_def)
next
  case (Some g)
  with assms have "''selected'' \<in> featureState s r \<longrightarrow> r = ref g"
    unfolding selection_inv_def by (metis option.inject)
  with Some show ?thesis
    by (cases "r = ref g") (simp_all add: unselectFeatures_def removeFeatureState_def Let_def)
qed

lemma unselect_selected:
  "selectedFeature (unselectFeatures s reset) = (if reset then None else selectedFeature s)"
  by (auto simp: unselectFeatures_def removeFeatureState_def Let_def split: option.splits)

lemma select_flags:
  assumes "selection_inv s"
  shows "(''selected'' \<in> featureState (selectFeature s f) r) = (r = ref f)"
  using unselect_clears [OF assms, of False r]
  by (auto simp: selectFeature_def setFeatureState_def Let_def)

lemma select_selected: "selectedFeature (selectFeature s f) = Some f"
  by (simp add: selectFeature_def Let_def)

lemma select_inv: "selection_inv s \<Longrightarrow> selection_inv (selectFeature s f)"
  by (simp add: selection_inv_def [of "selectFeature s f"] select_flags select_selected)

lemma unselect_inv: "selection_inv s \<Longrightarrow> selection_inv (unselectFeatures s reset)"
  by (simp add: selection_inv_def [of "unselectFeatures s reset"] unselect_clears)

lemma run_snoc: "run_calls s (cs @ [c]) = sel_step (run_calls s cs) c"
  by (simp add: run_calls_def)

lemma run_inv:
  assumes "\<forall>r. ''selected'' \<notin> featureState s0 r"
  shows "selection_inv (run_calls s0 calls)
     \<and> (\<forall>r. ''selected'' \<in> featureState (run_calls s0 calls) r \<longrightarrow>
           (\<exists>f. lastSelected calls = Some f \<and> r = ref f))"
proof (induction calls rule: rev_induct)
  case Nil
  show ?case using assms by (simp add: run_calls_def selection_inv_def)
next
  case (snoc c cs)
  then have inv: "selection_inv (run_calls s0 cs)" by blast
  show ?case
  proof (cases c)
    case (SelectFeature f)
    then show ?thesis
      using inv by (simp add: run_snoc select_inv select_flags lastSelected_snoc_select)
  next
    case (UnselectFeatures b)
    then show ?thesis
      using inv by (simp add: run_snoc unselect_inv unselect_clears)
  qed
qed


text \<open>
  C1. Selection exclusivity. Start in a state in which no feature carries the
  \<open>selected\<close> flag (the constructor's state is one) and run any sequence of
  \<open>selectFeature_\<close> and \<open>unselectFeatures_\<close> calls. Then every feature that carries
  the flag is the argument of the most recent \<open>selectFeature_\<close> call, so at most one
  feature carries it. A further \<open>selectFeature_\<close> call clears the flag of the feature
  selected before (when it is another feature), sets the flag of its argument and
  records the argument as the selection.
\<close>

theorem selection_exclusive:
  assumes "\<forall>r. ''selected'' \<notin> featureState s0 r"
  shows "(\<forall>r. ''selected'' \<in> featureState (run_calls s0 calls) r \<longrightarrow>
            (\<exists>f. lastSelected calls = Some f \<and> r = ref f))
       \<and> (\<forall>r r'. ''selected'' \<in> featureState (run_calls s0 calls) r
              \<and> ''selected'' \<in> featureState (run_calls s0 calls) r' \<longrightarrow> r = r')
       \<and> (\<forall>f g. selectedFeature (run_calls s0 calls) = Some g \<and> ref g \<noteq> ref f \<longrightarrow>
              ''selected'' \<notin> featureState (selectFeature (run_calls s0 calls) f) (ref g))
       \<and> (\<forall>f. ''selected'' \<in> featureState (selectFeature (run_calls s0 calls) f) (ref f)
              \<and> selectedFeature (selectFeature (run_calls s0 calls) f) = Some f)"
proof -
  have a: "\<forall>r. ''selected'' \<in> featureState (run_calls s0 calls) r \<longrightarrow>
            (\<exists>f. lastSelected calls = Some f \<and> r = ref f)"
    using run_inv [OF assms, of calls] by blast
  have inv: "selection_inv (run_calls s0 calls)"
    using run_inv [OF assms, of calls] by blast
  have b: "\<forall>r r'. ''selected'' \<in> featureState (run_calls s0 calls) r
              \<and> ''selected'' \<in> featureState (run_calls s0 calls) r' \<longrightarrow> r = r'"
    using a by (metis option.inject)
  have c: "\<forall>f g. selectedFeature (run_calls s0 calls) = Some g \<and> ref g \<noteq> ref f \<longrightarrow>
              ''selected'' \<notin> featureState (selectFeature (run_calls s0 calls) f) (ref g)"
    using select_flags [OF inv] by simp
  have d: "\<forall>f. ''selected'' \<in> featureState (selectFeature (run_calls s0 calls) f) (ref f)
              \<and> selectedFeature (selectFeature (run_calls s0 calls) f) = Some f"
    using select_flags [OF inv] select_selected by simp
  from a b c d show ?thesis by blast
qed


theorem selection_exclusive_witness:
  "(\<forall>r. ''selected'' \<notin> featureState exUi r)
   \<and> lastSelected [SelectFeature featA, UnselectFeatures False, SelectFeature featB] = Some featB
   \<and> ''selected'' \<in> featureState
         (run_calls exUi [SelectFeature featA, UnselectFeatures False, SelectFeature featB])
         (ref featB)
   \<and> ''selected'' \<notin> featureState
         (run_calls exUi [SelectFeature featA, UnselectFeatures False, SelectFeature featB])
         (ref featA)"
proof -
  have h: "\<forall>r. ''selected'' \<notin> featureState exUi r"
    by (simp add: exUi_eq initial_def)
  have l: "lastSelected [SelectFeature featA, UnselectFeatures False, SelectFeature featB]
             = Some featB"
    by simp
  have run: "run_calls exUi [SelectFeature featA, UnselectFeatures False, SelectFeature featB]
      = selectFeature (run_calls exUi [SelectFeature featA, UnselectFeatures False]) featB"
    by (simp add: run_calls_def)
  have pos: "''selected'' \<in> featureState
         (run_calls exUi [SelectFeature featA, UnselectFeatures False, SelectFeature featB])
         (ref featB)"
    using selection_exclusive [OF h, of "[SelectFeature featA, UnselectFeatures False]"]
    unfolding run by blast
  have ne: "ref featA \<noteq> ref featB"
    by (simp add: ref_def featA_def featB_def)
  have neg: "''selected'' \<notin> featureState
         (run_calls exUi [SelectFeature featA, UnselectFeatures False, SelectFeature featB])
         (ref featA)"
  proof
    assume "''selected'' \<in> featureState
         (run_calls exUi [SelectFeature featA, UnselectFeatures False, SelectFeature featB])
         (ref featA)"
    with selection_exclusive [OF h,
        of "[SelectFeature featA, UnselectFeatures False, SelectFeature featB]"]
    have "\<exists>f. lastSelected [SelectFeature featA, UnselectFeatures False, SelectFeature featB]
              = Some f \<and> ref featA = ref f"
      by blast
    with l ne show False by simp
  qed
  from h l pos neg show ?thesis by blast
qed

subsection \<open>Smallest annotated polygon\<close>

lemma firstMin_Cons_less:
  assumes "firstMin e cs r" "turfArea e r < turfArea e f"
  shows "firstMin e (f # cs) r"
proof -
  from assms(1) obtain pre post where d: "cs = pre @ r # post"
    "\<forall>c \<in> set pre. turfArea e r < turfArea e c" "\<forall>c \<in> set post. turfArea e r \<le> turfArea e c"
    unfolding firstMin_def by blast
  have "f # cs = (f # pre) @ r # post" using d(1) by simp
  moreover have "\<forall>c \<in> set (f # pre). turfArea e r < turfArea e c" using d(2) assms(2) by simp
  ultimately show ?thesis unfolding firstMin_def using d(3) by blast
qed

lemma firstMin_head:
  assumes "\<forall>c \<in> set cs. turfArea e f \<le> turfArea e c"
  shows "firstMin e (f # cs) f"
  unfolding firstMin_def using assms by (intro exI [of _ "[]"] exI [of _ cs]) simp

lemma smallestLoop_Some:
  "\<exists>r. smallestLoop e s (turfArea e g) (Some g) fs = Some r
     \<and> ((r = g \<and> (\<forall>c \<in> set (candidates s fs). turfArea e g \<le> turfArea e c))
        \<or> (firstMin e (candidates s fs) r \<and> turfArea e r < turfArea e g))"
proof (induction fs arbitrary: g)
  case Nil
  show ?case by (simp add: candidates_def)
next
  case (Cons f fs)
  show ?case
  proof (cases "str_includes (geometryType f) ''Polygon'' \<and> ''annotated'' \<in> featureState s (ref f)")
    case False
    then have "candidates s (f # fs) = candidates s fs" by (auto simp: candidates_def)
    moreover from False have "smallestLoop e s (turfArea e g) (Some g) (f # fs)
        = smallestLoop e s (turfArea e g) (Some g) fs" by auto
    ultimately show ?thesis using Cons.IH [of g] by simp
  next
    case True
    then have cs: "candidates s (f # fs) = f # candidates s fs" by (simp add: candidates_def)
    show ?thesis
    proof (cases "turfArea e g > turfArea e f")
      case less: True
      with True have step: "smallestLoop e s (turfArea e g) (Some g) (f # fs)
          = smallestLoop e s (turfArea e f) (Some f) fs" by (simp add: Let_def)
      from Cons.IH [of f] obtain r where r: "smallestLoop e s (turfArea e f) (Some f) fs = Some r"
        "(r = f \<and> (\<forall>c \<in> set (candidates s fs). turfArea e f \<le> turfArea e c))
          \<or> (firstMin e (candidates s fs) r \<and> turfArea e r < turfArea e f)" by blast
      from r(2) have "firstMin e (f # candidates s fs) r \<and> turfArea e r < turfArea e g"
      proof
        assume "r = f \<and> (\<forall>c \<in> set (candidates s fs). turfArea e f \<le> turfArea e c)"
        then show ?thesis using firstMin_head [of "candidates s fs" e f] less by simp
      next
        assume "firstMin e (candidates s fs) r \<and> turfArea e r < turfArea e f"
        then show ?thesis using firstMin_Cons_less [of e "candidates s fs" r f] less by simp
      qed
      with step r(1) cs show ?thesis by simp
    next
      case geq: False
      with True have step: "smallestLoop e s (turfArea e g) (Some g) (f # fs)
          = smallestLoop e s (turfArea e g) (Some g) fs" by (simp add: Let_def)
      from Cons.IH [of g] obtain r where r: "smallestLoop e s (turfArea e g) (Some g) fs = Some r"
        "(r = g \<and> (\<forall>c \<in> set (candidates s fs). turfArea e g \<le> turfArea e c))
          \<or> (firstMin e (candidates s fs) r \<and> turfArea e r < turfArea e g)" by blast
      from r(2) have "(r = g \<and> (\<forall>c \<in> set (f # candidates s fs). turfArea e g \<le> turfArea e c))
          \<or> (firstMin e (f # candidates s fs) r \<and> turfArea e r < turfArea e g)"
      proof
        assume "r = g \<and> (\<forall>c \<in> set (candidates s fs). turfArea e g \<le> turfArea e c)"
        then show ?thesis using geq by simp
      next
        assume a: "firstMin e (candidates s fs) r \<and> turfArea e r < turfArea e g"
        then have "turfArea e r < turfArea e f" using geq by simp
        then show ?thesis using a firstMin_Cons_less [of e "candidates s fs" r f] by simp
      qed
      with step r(1) cs show ?thesis by simp
    qed
  qed
qed

lemma smallestLoop_None:
  "(smallestLoop e s a None fs = None \<longleftrightarrow> candidates s fs = [])
   \<and> (\<forall>r. smallestLoop e s a None fs = Some r \<longrightarrow> firstMin e (candidates s fs) r)"
proof (induction fs arbitrary: a)
  case Nil
  show ?case by (simp add: candidates_def)
next
  case (Cons f fs)
  show ?case
  proof (cases "str_includes (geometryType f) ''Polygon'' \<and> ''annotated'' \<in> featureState s (ref f)")
    case False
    then have "candidates s (f # fs) = candidates s fs" by (auto simp: candidates_def)
    moreover from False have "smallestLoop e s a None (f # fs) = smallestLoop e s a None fs"
      by auto
    ultimately show ?thesis using Cons.IH [of a] by simp
  next
    case True
    then have cs: "candidates s (f # fs) = f # candidates s fs" by (simp add: candidates_def)
    from True have step: "smallestLoop e s a None (f # fs)
        = smallestLoop e s (turfArea e f) (Some f) fs" by (simp add: Let_def)
    from smallestLoop_Some [of e s f fs] obtain r where
      r: "smallestLoop e s (turfArea e f) (Some f) fs = Some r"
        "(r = f \<and> (\<forall>c \<in> set (candidates s fs). turfArea e f \<le> turfArea e c))
          \<or> (firstMin e (candidates s fs) r \<and> turfArea e r < turfArea e f)" by blast
    from r(2) have "firstMin e (f # candidates s fs) r"
      using firstMin_head [of "candidates s fs" e f] firstMin_Cons_less [of e "candidates s fs" r f]
      by blast
    with step r(1) cs show ?thesis by simp
  qed
qed

text \<open>
  C2. \<open>smallestAnnotatedPolygonFeature_\<close> returns \<open>null\<close> exactly when no feature of
  the list is an annotated polygon. Otherwise it returns a candidate of minimum area,
  and among the candidates of that area the one that comes first in the list: every
  candidate before it has a strictly larger area, every candidate after it an area at
  least as large. The result is a function of the list, the state store and the areas.
\<close>

theorem smallestAnnotatedPolygonFeature_first_minimum:
  "(smallestAnnotatedPolygonFeature e s features = None \<longleftrightarrow> candidates s features = [])
   \<and> (\<forall>r. smallestAnnotatedPolygonFeature e s features = Some r
          \<longrightarrow> firstMin e (candidates s features) r)"
  unfolding smallestAnnotatedPolygonFeature_def
  using smallestLoop_None [of e s 0 features] by blast

theorem smallestAnnotatedPolygonFeature_first_minimum_witness:
  "smallestAnnotatedPolygonFeature exEnv exUi [featA, featB, featC] = Some featB
   \<and> candidates exUi [featA, featB, featC] = [featA, featB, featC]
   \<and> turfArea exEnv featB = turfArea exEnv featC
   \<and> firstMin exEnv (candidates exUi [featA, featB, featC]) featB"
proof -
  have eq: "turfArea exEnv featB = turfArea exEnv featC"
    by (simp add: exEnv_def featB_def featC_def)
  from smallestAnnotatedPolygonFeature_first_minimum [of exEnv exUi "[featA, featB, featC]"]
    ex_smallest
  have "firstMin exEnv (candidates exUi [featA, featB, featC]) featB" by blast
  with ex_smallest ex_candidates eq show ?thesis by blast
qed

subsection \<open>Layer name of the selection\<close>

lemma str_includes_char: "str_includes s [c] = (c \<in> set s)"
  by (induction s) auto

lemma str_split_nonempty: "str_split c s \<noteq> []"
  by (induction s) (auto split: list.splits)

lemma str_split_no_sep: "c \<notin> set s \<Longrightarrow> str_split c s = [s]"
  by (induction s) auto

lemma str_split_append: "str_split c (p @ c # q) = str_split c p @ str_split c q"
  by (induction p) (auto split: list.splits simp: str_split_nonempty)

lemma str_join_split: "str_join [c] (str_split c p) = p"
proof (induction p)
  case Nil
  then show ?case by simp
next
  case (Cons x p)
  obtain w ws where ws: "str_split c p = w # ws"
    using str_split_nonempty [of c p] by (cases "str_split c p") auto
  show ?case
  proof (cases "x = c")
    case True
    with Cons ws show ?thesis by simp
  next
    case False
    with Cons ws show ?thesis by (cases ws) auto
  qed
qed

lemma drop_last_segment:
  assumes "c \<notin> set q"
  shows "str_join [c] (butlast (str_split c (p @ c # q))) = p"
  using assms by (simp add: str_split_append str_split_no_sep str_join_split)

lemma last_sep_decomp:
  assumes "c \<in> set s"
  shows "\<exists>p q. s = p @ c # q \<and> c \<notin> set q"
  using assms by (rule split_list_last)


text \<open>
  C10. \<open>selectedFeatureLayerName\<close> is \<open>null\<close> when nothing is selected. When the
  layer id of the selected feature is \<open>p-q\<close> with no \<open>-\<close> in \<open>q\<close>, the result is
  \<open>p\<close>: the id without its last segment. When the layer id has no \<open>-\<close>, the result
  is the id itself. Every id that has a \<open>-\<close> is of the form \<open>p-q\<close> with no \<open>-\<close> in
  \<open>q\<close>, so the three cases cover every state.
\<close>

theorem selectedFeatureLayerName_cases:
  "(selectedFeature s = None \<longrightarrow> selectedFeatureLayerName s = None)
   \<and> (\<forall>f p q. selectedFeature s = Some f \<and> layerId f = p @ ''-'' @ q \<and> CHR ''-'' \<notin> set q
        \<longrightarrow> selectedFeatureLayerName s = Some p)
   \<and> (\<forall>f. selectedFeature s = Some f \<and> CHR ''-'' \<notin> set (layerId f)
        \<longrightarrow> selectedFeatureLayerName s = Some (layerId f))
   \<and> (\<forall>f. selectedFeature s = Some f \<and> CHR ''-'' \<in> set (layerId f)
        \<longrightarrow> (\<exists>p q. layerId f = p @ ''-'' @ q \<and> CHR ''-'' \<notin> set q))"
proof (intro conjI allI impI)
  assume "selectedFeature s = None"
  then show "selectedFeatureLayerName s = None"
    by (simp add: selectedFeatureLayerName_def)
next
  fix f p q
  assume h: "selectedFeature s = Some f \<and> layerId f = p @ ''-'' @ q \<and> CHR ''-'' \<notin> set q"
  then have "str_join ''-'' (butlast (str_split CHR ''-'' (layerId f))) = p"
    using drop_last_segment [of "CHR ''-''" q p] by simp
  with h show "selectedFeatureLayerName s = Some p"
    by (simp add: selectedFeatureLayerName_def str_includes_char)
next
  fix f
  assume "selectedFeature s = Some f \<and> CHR ''-'' \<notin> set (layerId f)"
  then show "selectedFeatureLayerName s = Some (layerId f)"
    by (simp add: selectedFeatureLayerName_def str_includes_char)
next
  fix f
  assume "selectedFeature s = Some f \<and> CHR ''-'' \<in> set (layerId f)"
  then show "\<exists>p q. layerId f = p @ ''-'' @ q \<and> CHR ''-'' \<notin> set q"
    using last_sep_decomp [of "CHR ''-''" "layerId f"] by simp
qed

theorem selectedFeatureLayerName_cases_witness:
  "selectedFeature (selectFeature exUi featC) = Some featC
   \<and> layerId featC = ''organs-left'' @ ''-'' @ ''fill''
   \<and> CHR ''-'' \<notin> set ''fill''
   \<and> selectedFeatureLayerName (selectFeature exUi featC) = Some ''organs-left''
   \<and> selectedFeature exUi = None
   \<and> selectedFeatureLayerName exUi = None"
proof -
  have a: "selectedFeature (selectFeature exUi featC) = Some featC"
    by (simp add: selectFeature_def Let_def)
  have b: "layerId featC = ''organs-left'' @ ''-'' @ ''fill''"
    by (simp add: featC_def)
  have c: "CHR ''-'' \<notin> set ''fill''" by simp
  have d: "selectedFeature exUi = None" by (simp add: exUi_eq initial_def)
  from selectedFeatureLayerName_cases [of "selectFeature exUi featC"] a b c
  have e: "selectedFeatureLayerName (selectFeature exUi featC) = Some ''organs-left''"
    by blast
  from selectedFeatureLayerName_cases [of exUi] d
  have f: "selectedFeatureLayerName exUi = None" by blast
  from a b c d e f show ?thesis by blast
qed

subsection \<open>Resolution does not depend on the controller's own fields\<close>

lemma smallestLoop_store:
  assumes "featureState s' = featureState s"
  shows "smallestLoop e s' a acc fs = smallestLoop e s a acc fs"
proof (induction fs arbitrary: a acc)
  case Nil
  show ?case by simp
next
  case (Cons f fs)
  show ?case
    by (simp only: smallestLoop.simps assms Cons.IH)
qed

lemma smallest_store:
  "featureState s' = featureState s \<Longrightarrow>
     smallestAnnotatedPolygonFeature e s' fs = smallestAnnotatedPolygonFeature e s fs"
  unfolding smallestAnnotatedPolygonFeature_def by (rule smallestLoop_store)

lemma ex_active: "activeFeaturesAtEvent exEnv exEvent = [featA, featB, featC]"
  by (simp add: activeFeaturesAtEvent_def exEnv_def exEvent_def featA_def featB_def featC_def)


subsection \<open>Context menu\<close>

lemma contextMenuItems_nonempty: "contextMenuItems e ident ann f \<noteq> []"
  by (simp add: contextMenuItems_def Let_def)

lemma contextMenuEvent_A_found:
  assumes "\<not> now < lastContextTime s + 100"
    and "smallestAnnotatedPolygonFeature e s (activeFeaturesAtEvent e ev) = Some f"
  shows "contextMenuEvent_A e s ev now =
     (selectFeature (s\<lparr>lastContextTime := now\<rparr>) f)
       \<lparr>tooltip := None, modal := True,
        contextMenu := Some (lngLat ev,
           contextMenuItems e (prop_id f) (getAnnotation e (prop_id f)) f)\<rparr>"
proof -
  have "smallestAnnotatedPolygonFeature e (s\<lparr>lastContextTime := now\<rparr>)
          (activeFeaturesAtEvent e ev) = Some f"
    using assms(2) smallest_store [of "s\<lparr>lastContextTime := now\<rparr>" s e] by simp
  with assms(1) show ?thesis
    by (simp add: contextMenuEvent_A_def Let_def contextMenuItems_nonempty)
qed

lemma contextMenuEvent_B_found:
  assumes "\<not> now < lastContextTime s + 100"
    and "smallestAnnotatedPolygonFeature e s (activeFeaturesAtEvent e ev) = Some f"
  shows "contextMenuEvent_B e s ev now =
     (selectFeature (s\<lparr>lastContextTime := now\<rparr>) f)
       \<lparr>modal := True,
        contextMenu := Some (lngLat ev,
           contextMenuItems e (prop_id f) (getAnnotation e (prop_id f)) f)\<rparr>"
proof -
  have "smallestAnnotatedPolygonFeature e (s\<lparr>lastContextTime := now\<rparr>)
          (activeFeaturesAtEvent e ev) = Some f"
    using assms(2) smallest_store [of "s\<lparr>lastContextTime := now\<rparr>" s e] by simp
  with assms(1) show ?thesis
    by (simp add: contextMenuEvent_B_def Let_def contextMenuItems_nonempty)
qed

lemma selectFeature_fields:
  "selectedFeature (selectFeature s f) = Some f
   \<and> cursor (selectFeature s f) = cursor s
   \<and> tooltip (selectFeature s f) = tooltip s
   \<and> activeFeature (selectFeature s f) = activeFeature s
   \<and> modal (selectFeature s f) = modal s
   \<and> contextMenu (selectFeature s f) = contextMenu s
   \<and> lastTouchTime (selectFeature s f) = lastTouchTime s
   \<and> lastContextTime (selectFeature s f) = lastContextTime s"
  by (simp add: selectFeature_def unselectFeatures_def setFeatureState_def
        removeFeatureState_def Let_def split: option.splits)

lemma ex_smallest_active:
  "smallestAnnotatedPolygonFeature exEnv exUi (activeFeaturesAtEvent exEnv exEvent) = Some featB"
  by (simp add: ex_active ex_smallest)

lemma exUi_fields:
  "lastContextTime exUi = 0 \<and> lastTouchTime exUi = 0 \<and> cursor exUi = [] \<and> tooltip exUi = None
   \<and> activeFeature exUi = None \<and> selectedFeature exUi = None \<and> \<not> modal exUi
   \<and> contextMenu exUi = None \<and> highlightedFeatures exUi = [] \<and> queryCalls exUi = []
   \<and> fitBoundsCalls exUi = [] \<and> layerSwitcher exUi = None"
  by (simp add: exUi_eq initial_def)

lemma exMenu_B_fields:
  "modal exMenu_B \<and> cursor exMenu_B = [] \<and> tooltip exMenu_B = None
   \<and> activeFeature exMenu_B = None \<and> selectedFeature exMenu_B = Some featB
   \<and> contextMenu exMenu_B \<noteq> None"
proof -
  have "\<not> (1000::int) < lastContextTime exUi + 100" by (simp add: exUi_fields)
  from contextMenuEvent_B_found [OF this ex_smallest_active]
  show ?thesis by (simp add: exMenu_B_def selectFeature_fields exUi_fields)
qed

lemma exMenu_A_fields:
  "modal exMenu_A \<and> contextMenu exMenu_A \<noteq> None \<and> queryCalls exMenu_A = []
   \<and> highlightedFeatures exMenu_A = []"
proof -
  have "\<not> (1000::int) < lastContextTime exUi + 100" by (simp add: exUi_fields)
  from contextMenuEvent_A_found [OF this ex_smallest_active]
  show ?thesis
    by (simp add: exMenu_A_def selectFeature_def unselectFeatures_def setFeatureState_def
          removeFeatureState_def Let_def exUi_fields split: option.splits)
qed

lemma contextMenuItems_spec:
  "contextMenuItems e ident ann f = specMenuItems (hasModels ann) (onQueryableLayer e ann) ident f"
  by (cases ann)
     (simp_all add: contextMenuItems_def specMenuItems_def hasModels_def onQueryableLayer_def Let_def)

text \<open>
  C5. Context-menu construction, in both variants. For a contextmenu event that is not
  debounced and that resolves a smallest annotated polygon \<open>f\<close>, the menu is shown at the
  event's coordinate, the modal flag is set, and the item list is, in this order: the
  query-data item iff the annotation found for \<open>f\<close> has a non-empty models list, the
  edges item and the nodes item iff the annotation's layer is queryable, a separator iff
  one of these items precedes it, and the trailing \<open>Zoom to...\<close> item. With empty
  models and a layer that is not queryable (or with no annotation record) the list is the
  zoom item alone. The list the handler builds is never empty, so the handler's branch
  for an empty list (nothing shown, modal not entered) is never taken.
\<close>

theorem contextMenu_construction:
  assumes "\<not> now < lastContextTime s + 100"
    and "smallestAnnotatedPolygonFeature e s (activeFeaturesAtEvent e ev) = Some f"
  shows "contextMenu (contextMenuEvent_A e s ev now)
           = Some (lngLat ev, specMenuItems (hasModels (getAnnotation e (prop_id f)))
                    (onQueryableLayer e (getAnnotation e (prop_id f))) (prop_id f) f)
       \<and> modal (contextMenuEvent_A e s ev now)
       \<and> contextMenu (contextMenuEvent_B e s ev now)
           = Some (lngLat ev, specMenuItems (hasModels (getAnnotation e (prop_id f)))
                    (onQueryableLayer e (getAnnotation e (prop_id f))) (prop_id f) f)
       \<and> modal (contextMenuEvent_B e s ev now)
       \<and> specMenuItems False False (prop_id f) f = [Item (prop_id f) ''Zoom to...'' (ZoomTo f)]
       \<and> contextMenuItems e (prop_id f) (getAnnotation e (prop_id f)) f \<noteq> []"
proof -
  have a: "contextMenu (contextMenuEvent_A e s ev now)
           = Some (lngLat ev, specMenuItems (hasModels (getAnnotation e (prop_id f)))
                    (onQueryableLayer e (getAnnotation e (prop_id f))) (prop_id f) f)
       \<and> modal (contextMenuEvent_A e s ev now)"
    by (simp add: contextMenuEvent_A_found [OF assms] contextMenuItems_spec)
  have b: "contextMenu (contextMenuEvent_B e s ev now)
           = Some (lngLat ev, specMenuItems (hasModels (getAnnotation e (prop_id f)))
                    (onQueryableLayer e (getAnnotation e (prop_id f))) (prop_id f) f)
       \<and> modal (contextMenuEvent_B e s ev now)"
    by (simp add: contextMenuEvent_B_found [OF assms] contextMenuItems_spec)
  have c: "specMenuItems False False (prop_id f) f = [Item (prop_id f) ''Zoom to...'' (ZoomTo f)]"
    by (simp add: specMenuItems_def)
  from a b c contextMenuItems_nonempty [of e "prop_id f" "getAnnotation e (prop_id f)" f]
  show ?thesis by blast
qed

lemma ex_smallest_A:
  "smallestAnnotatedPolygonFeature exEnv exUi (activeFeaturesAtEvent exEnv exEventA) = Some featA"
  by (simp add: activeFeaturesAtEvent_def smallestAnnotatedPolygonFeature_def exEnv_def
        exEventA_def exUi_eq initial_def ref_def featA_def Let_def)

theorem contextMenu_construction_witness:
  "\<not> (1000::int) < lastContextTime exUi + 100
   \<and> smallestAnnotatedPolygonFeature exEnv exUi (activeFeaturesAtEvent exEnv exEventA) = Some featA
   \<and> getAnnotation exEnv (prop_id featA) = Some annA
   \<and> ann_models annA = []
   \<and> \<not> layerQueryable exEnv (ann_layer annA)
   \<and> contextMenu (contextMenuEvent_A exEnv exUi exEventA 1000)
       = Some ((10, 10), [Item (Some ''A'') ''Zoom to...'' (ZoomTo featA)])
   \<and> modal (contextMenuEvent_A exEnv exUi exEventA 1000)
   \<and> contextMenu (contextMenuEvent_B exEnv exUi exEventA 1000)
       = Some ((10, 10), [Item (Some ''A'') ''Zoom to...'' (ZoomTo featA)])
   \<and> modal (contextMenuEvent_B exEnv exUi exEventA 1000)"
proof -
  have t: "\<not> (1000::int) < lastContextTime exUi + 100" by (simp add: exUi_fields)
  have g: "getAnnotation exEnv (prop_id featA) = Some annA"
    by (simp add: exEnv_def featA_def)
  have m: "ann_models annA = []" "\<not> layerQueryable exEnv (ann_layer annA)"
    by (simp_all add: annA_def exEnv_def)
  have h: "hasModels (Some annA) = False" "onQueryableLayer exEnv (Some annA) = False"
    using m by (simp_all add: hasModels_def onQueryableLayer_def)
  have p: "prop_id featA = Some ''A''" "lngLat exEventA = (10, 10)"
    by (simp_all add: featA_def exEventA_def)
  from contextMenu_construction [OF t ex_smallest_A] t ex_smallest_A g m
  show ?thesis by (simp add: g h p)
qed


subsection \<open>Mouse movement under the modal flag\<close>

lemma mouseMoveEvent_B_label:
  assumes "queryRenderedFeatures e (Some (point ev)) = fs" "fs \<noteq> []"
    and "infoControl e = None"
    and "sort_key prop_area (filter (\<lambda>f. prop_label f \<noteq> None) fs) = f # rest"
    and "layerType f \<noteq> ''symbol''" "options_tooltips e"
  shows "cursor (mouseMoveEvent_B e s ev) = ''default''
     \<and> activeFeature (mouseMoveEvent_B e s ev) = Some f
     \<and> (\<exists>html. tooltip (mouseMoveEvent_B e s ev) = Some (lngLat ev, Html html))"
  using assms
  by (simp add: mouseMoveEvent_B_def Let_def removeTooltip_def removeFeatureState_def
        setFeatureState_def split: option.splits)

text \<open>
  C3, as the claim states it for both variants, fails for variant B: with the context
  menu open on \<open>B\<close> (modal flag true), a mousemove of variant B changes the cursor,
  shows a tooltip and marks a feature active.
\<close>

theorem mouseMove_modal_counterexample:
  "modal exMenu_B
   \<and> cursor (mouseMoveEvent_B exEnv exMenu_B exEvent) \<noteq> cursor exMenu_B
   \<and> tooltip (mouseMoveEvent_B exEnv exMenu_B exEvent) \<noteq> tooltip exMenu_B
   \<and> activeFeature (mouseMoveEvent_B exEnv exMenu_B exEvent) \<noteq> activeFeature exMenu_B"
proof -
  have q: "queryRenderedFeatures exEnv (Some (point exEvent)) = [featA, featB, featC]"
    by (simp add: exEnv_def exEvent_def)
  have srt: "sort_key prop_area (filter (\<lambda>f. prop_label f \<noteq> None) [featA, featB, featC])
      = featB # [featA]"
    by (simp add: featA_def featB_def featC_def)
  have i: "infoControl exEnv = None" "options_tooltips exEnv" by (simp_all add: exEnv_def)
  have l: "layerType featB \<noteq> ''symbol''" by (simp add: featB_def)
  from mouseMoveEvent_B_label [OF q _ i(1) srt l i(2), of exMenu_B] exMenu_B_fields
  show ?thesis by auto
qed


lemma resetHover_eq:
  "(case activeFeature (removeTooltip s\<lparr>cursor := ''default''\<rparr>) of
      Some f \<Rightarrow> (removeFeatureState (removeTooltip s\<lparr>cursor := ''default''\<rparr>) (ref f) ''active'')
                  \<lparr>activeFeature := None\<rparr>
    | None \<Rightarrow> removeTooltip s\<lparr>cursor := ''default''\<rparr>) = resetHover s"
  by (cases "activeFeature s"; cases "tooltip s")
     (simp_all add: resetHover_def removeTooltip_def removeFeatureState_def)

lemma mouseMoveEvent_B_hoverFrom: "mouseMoveEvent_B e s ev = hoverFrom e (resetHover s) ev"
  unfolding mouseMoveEvent_B_def hoverFrom_def Let_def resetHover_eq by (rule refl)

lemma resetHover_fields:
  "tooltip (resetHover s) = None \<and> cursor (resetHover s) = ''default''
   \<and> activeFeature (resetHover s) = None"
  by (cases "activeFeature s") (simp_all add: resetHover_def removeFeatureState_def)

lemma resetHover_modal: "resetHover (s\<lparr>modal := b\<rparr>) = (resetHover s)\<lparr>modal := b\<rparr>"
  by (cases "activeFeature s") (simp_all add: resetHover_def removeFeatureState_def)

lemma resetHover_idem: "resetHover (resetHover s) = resetHover s"
  by (cases "activeFeature s") (simp_all add: resetHover_def removeFeatureState_def)

lemma hoverFrom_modal: "hoverFrom e (r\<lparr>modal := b\<rparr>) ev = (hoverFrom e r ev)\<lparr>modal := b\<rparr>"
  by (cases "infoControl e";
      cases "sort_key prop_area
               (filter (\<lambda>f. prop_label f \<noteq> None) (queryRenderedFeatures e (Some (point ev))))")
     (simp_all add: hoverFrom_def Let_def setFeatureState_def)

lemma hoverFrom_cursor:
  "cursor (hoverFrom e r ev) = cursor r \<or> cursor (hoverFrom e r ev) = ''pointer''"
  by (cases "infoControl e";
      cases "sort_key prop_area
               (filter (\<lambda>f. prop_label f \<noteq> None) (queryRenderedFeatures e (Some (point ev))))")
     (simp_all add: hoverFrom_def Let_def setFeatureState_def)

lemma hoverFrom_tooltip:
  "tooltip (hoverFrom e r ev) = tooltip r
   \<or> (\<exists>h. tooltip (hoverFrom e r ev) = Some (lngLat ev, Html h))"
  by (cases "infoControl e";
      cases "sort_key prop_area
               (filter (\<lambda>f. prop_label f \<noteq> None) (queryRenderedFeatures e (Some (point ev))))")
     (simp_all add: hoverFrom_def Let_def setFeatureState_def)

lemma hoverFrom_empty: "queryRenderedFeatures e (Some (point ev)) = [] \<Longrightarrow> hoverFrom e r ev = r"
  by (simp add: hoverFrom_def)

text \<open>
  C3, amended. In variant A a mousemove in a state whose modal flag is true leaves the
  whole state unchanged, and with it the tooltip, the selection and the cursor. The
  handler of variant B does not read the modal flag: in every state its effect is the
  same whether the flag is true or false. On every mousemove it first removes the
  tooltip, sets the cursor to \<open>default\<close> and clears the active feature, so that its
  result is the one it gives from that reset state: afterwards the cursor is \<open>default\<close>
  or \<open>pointer\<close>, the tooltip is absent or the one built for this event, and when no
  feature is rendered at the point the result is the reset state itself.
\<close>

theorem mouseMove_modal:
  "(modal s \<longrightarrow> mouseMoveEvent_A e s ev = s)
   \<and> mouseMoveEvent_B e (s\<lparr>modal := b\<rparr>) ev = (mouseMoveEvent_B e s ev)\<lparr>modal := b\<rparr>
   \<and> mouseMoveEvent_B e s ev = mouseMoveEvent_B e (resetHover s) ev
   \<and> (cursor (mouseMoveEvent_B e s ev) = ''default''
        \<or> cursor (mouseMoveEvent_B e s ev) = ''pointer'')
   \<and> (tooltip (mouseMoveEvent_B e s ev) = None
        \<or> (\<exists>h. tooltip (mouseMoveEvent_B e s ev) = Some (lngLat ev, Html h)))
   \<and> (queryRenderedFeatures e (Some (point ev)) = [] \<longrightarrow>
        mouseMoveEvent_B e s ev = resetHover s
        \<and> tooltip (mouseMoveEvent_B e s ev) = None
        \<and> cursor (mouseMoveEvent_B e s ev) = ''default''
        \<and> activeFeature (mouseMoveEvent_B e s ev) = None)"
proof -
  have a: "modal s \<longrightarrow> mouseMoveEvent_A e s ev = s"
    by (simp add: mouseMoveEvent_A_def)
  have m: "mouseMoveEvent_B e (s\<lparr>modal := b\<rparr>) ev = (mouseMoveEvent_B e s ev)\<lparr>modal := b\<rparr>"
    by (simp add: mouseMoveEvent_B_hoverFrom resetHover_modal hoverFrom_modal)
  have r: "mouseMoveEvent_B e s ev = mouseMoveEvent_B e (resetHover s) ev"
    by (simp add: mouseMoveEvent_B_hoverFrom resetHover_idem)
  have c: "cursor (mouseMoveEvent_B e s ev) = ''default''
        \<or> cursor (mouseMoveEvent_B e s ev) = ''pointer''"
    using hoverFrom_cursor [of e "resetHover s" ev]
    by (simp add: mouseMoveEvent_B_hoverFrom resetHover_fields)
  have t: "tooltip (mouseMoveEvent_B e s ev) = None
        \<or> (\<exists>h. tooltip (mouseMoveEvent_B e s ev) = Some (lngLat ev, Html h))"
    using hoverFrom_tooltip [of e "resetHover s" ev]
    by (simp add: mouseMoveEvent_B_hoverFrom resetHover_fields)
  have n: "queryRenderedFeatures e (Some (point ev)) = [] \<longrightarrow>
        mouseMoveEvent_B e s ev = resetHover s
        \<and> tooltip (mouseMoveEvent_B e s ev) = None
        \<and> cursor (mouseMoveEvent_B e s ev) = ''default''
        \<and> activeFeature (mouseMoveEvent_B e s ev) = None"
    by (simp add: mouseMoveEvent_B_hoverFrom hoverFrom_empty resetHover_fields)
  from a m r c t n show ?thesis by blast
qed

theorem mouseMove_modal_witness:
  "modal exMenu_A
   \<and> mouseMoveEvent_A exEnv exMenu_A exEvent = exMenu_A
   \<and> modal exMenu_B
   \<and> mouseMoveEvent_B exEnv exMenu_B exEvent
       = (mouseMoveEvent_B exEnv (exMenu_B\<lparr>modal := False\<rparr>) exEvent)\<lparr>modal := True\<rparr>
   \<and> queryRenderedFeatures (exEnv\<lparr>queryRenderedFeatures := (\<lambda>p. [])\<rparr>) (Some (point exEvent)) = []
   \<and> cursor (mouseMoveEvent_B (exEnv\<lparr>queryRenderedFeatures := (\<lambda>p. [])\<rparr>) exMenu_B exEvent)
       = ''default''"
proof -
  have m: "modal exMenu_A" "modal exMenu_B" using exMenu_A_fields exMenu_B_fields by simp_all
  have a: "mouseMoveEvent_A exEnv exMenu_A exEvent = exMenu_A"
    using mouseMove_modal [where s = exMenu_A and e = exEnv and ev = exEvent] m by blast
  have "mouseMoveEvent_B exEnv ((exMenu_B\<lparr>modal := False\<rparr>)\<lparr>modal := True\<rparr>) exEvent
       = (mouseMoveEvent_B exEnv (exMenu_B\<lparr>modal := False\<rparr>) exEvent)\<lparr>modal := True\<rparr>"
    using mouseMove_modal [where s = "exMenu_B\<lparr>modal := False\<rparr>" and e = exEnv
        and ev = exEvent and b = True]
    by blast
  moreover have "(exMenu_B\<lparr>modal := False\<rparr>)\<lparr>modal := True\<rparr> = exMenu_B"
    using m(2) by simp
  ultimately have b: "mouseMoveEvent_B exEnv exMenu_B exEvent
       = (mouseMoveEvent_B exEnv (exMenu_B\<lparr>modal := False\<rparr>) exEvent)\<lparr>modal := True\<rparr>"
    by simp
  have q: "queryRenderedFeatures (exEnv\<lparr>queryRenderedFeatures := (\<lambda>p. [])\<rparr>)
             (Some (point exEvent)) = []"
    by simp
  have d: "cursor (mouseMoveEvent_B (exEnv\<lparr>queryRenderedFeatures := (\<lambda>p. [])\<rparr>) exMenu_B exEvent)
       = ''default''"
    using mouseMove_modal [where s = exMenu_B
        and e = "exEnv\<lparr>queryRenderedFeatures := (\<lambda>p. [])\<rparr>" and ev = exEvent] q
    by blast
  from m a b q d show ?thesis by blast
qed

subsection \<open>Highlighting and zooming\<close>

lemma fold_remove:
  "fold (\<lambda>r st. removeFeatureState st r flag) rs s =
     s\<lparr>featureState := (\<lambda>r. if r \<in> set rs then featureState s r - {flag}
                             else featureState s r)\<rparr>"
proof (induction rs arbitrary: s)
  case Nil
  show ?case by simp
next
  case (Cons x xs)
  have "(\<lambda>r. if r \<in> set xs then featureState (removeFeatureState s x flag) r - {flag}
              else featureState (removeFeatureState s x flag) r)
        = (\<lambda>r. if r \<in> set (x # xs) then featureState s r - {flag} else featureState s r)"
    by (rule ext) (simp add: removeFeatureState_def)
  then show ?case by (simp add: Cons.IH) (simp add: removeFeatureState_def)
qed

lemma unhighlightFeatures_eq:
  "unhighlightFeatures s =
     s\<lparr>featureState := (\<lambda>r. if r \<in> set (highlightedFeatures s)
                             then featureState s r - {''highlighted''}
                             else featureState s r),
       highlightedFeatures := []\<rparr>"
  by (simp add: unhighlightFeatures_def fold_remove)

lemma mergeFrom_step:
  "mergeFrom (Some (case bbox of None \<Rightarrow> b | Some c \<Rightarrow> expandBounds c b)) bs = mergeFrom bbox (b # bs)"
  by (cases bbox) (simp_all add: mergeFrom_def)

lemma highlightAll_step:
  "highlightAll (highlightFeature s r) rs = highlightAll s (r # rs)"
proof -
  have "(\<lambda>x. if x \<in> set rs then insert ''highlighted'' (featureState (highlightFeature s r) x)
             else featureState (highlightFeature s r) x)
       = (\<lambda>x. if x \<in> set (r # rs) then insert ''highlighted'' (featureState s x)
             else featureState s x)"
    by (rule ext) (simp add: highlightFeature_def setFeatureState_def Let_def)
  then show ?thesis
    by (simp add: highlightAll_def) (simp add: highlightFeature_def setFeatureState_def Let_def)
qed

lemma highlightAll_step_A:
  "highlightAll ((setFeatureState s r ''highlighted'')
       \<lparr>highlightedFeatures := highlightedFeatures (setFeatureState s r ''highlighted'') @ [r]\<rparr>) rs
     = highlightAll s (r # rs)"
  using highlightAll_step [of s r rs] by (simp add: highlightFeature_def Let_def)

lemma highlightAll_Nil: "highlightAll s [] = s"
  by (simp add: highlightAll_def)

lemma boxOf_step:
  "(case boxOf bo of
      BoxNull \<Rightarrow> f (Box b)
    | BoxUndefined \<Rightarrow> u
    | Box c \<Rightarrow> g c)
   = (case bo of None \<Rightarrow> f (Box b) | Some c \<Rightarrow> g c)"
  by (cases bo) (simp_all add: boxOf_def)

lemma allBounds_Cons:
  "allBounds e (i # ids) =
     ((\<forall>p. annotation e i = Some p \<longrightarrow> ap_bounds p \<noteq> None) \<and> allBounds e ids)"
  by (simp add: allBounds_def)

lemma zoomLoop_B_eq:
  assumes "allBounds e ids"
  shows "zoomLoop_B e s (boxOf bo) ids =
     Inr (highlightAll s (map (\<lambda>(i, p). mapFeature (ap_layer p) i) (resolved e ids)),
          boxOf (mergeFrom bo (resolvedBoxes e ids)))"
  using assms
proof (induction ids arbitrary: s bo)
  case Nil
  show ?case
    by (cases bo)
       (simp_all add: resolved_def resolvedBoxes_def List.map_filter_simps highlightAll_Nil
          mergeFrom_def)
next
  case (Cons i ids)
  from Cons.prems have rest: "allBounds e ids" by (simp add: allBounds_Cons)
  show ?case
  proof (cases "annotation e i")
    case None
    then have "resolved e (i # ids) = resolved e ids"
      "resolvedBoxes e (i # ids) = resolvedBoxes e ids"
      by (simp_all add: resolved_def resolvedBoxes_def List.map_filter_simps)
    with None show ?thesis by (simp add: Cons.IH [OF rest])
  next
    case (Some p)
    with Cons.prems obtain b where b: "ap_bounds p = Some b"
      by (auto simp: allBounds_Cons)
    from Some b have r: "resolved e (i # ids) = (i, p) # resolved e ids"
      "resolvedBoxes e (i # ids) = b # resolvedBoxes e ids"
      by (simp_all add: resolved_def resolvedBoxes_def List.map_filter_simps)
    have step: "zoomLoop_B e s (boxOf bo) (i # ids) =
        zoomLoop_B e (highlightFeature s (mapFeature (ap_layer p) i))
          (boxOf (Some (case bo of None \<Rightarrow> b | Some c \<Rightarrow> expandBounds c b))) ids"
      using Some b by (cases bo) (simp_all add: Let_def boxOf_def)
    show ?thesis
      unfolding step
      by (simp add: Cons.IH [OF rest] r highlightAll_step mergeFrom_step)
  qed
qed

lemma zoomLoop_A_eq:
  "zoomLoop_A e s bbox fs = (highlightAll s (map ref fs), mergeFrom bbox (map (bounds e) fs))"
proof (induction fs arbitrary: s bbox)
  case Nil
  show ?case by (simp add: highlightAll_Nil mergeFrom_def split: option.splits)
next
  case (Cons f fs)
  show ?case
    by (simp add: Let_def Cons.IH highlightAll_step_A mergeFrom_step)
qed

lemma unhighlight_fields:
  "highlightedFeatures (unhighlightFeatures s) = []
   \<and> fitBoundsCalls (unhighlightFeatures s) = fitBoundsCalls s
   \<and> contextMenu (unhighlightFeatures s) = contextMenu s
   \<and> modal (unhighlightFeatures s) = modal s
   \<and> cursor (unhighlightFeatures s) = cursor s
   \<and> inQuery (unhighlightFeatures s) = inQuery s
   \<and> queryCalls (unhighlightFeatures s) = queryCalls s
   \<and> callbacks (unhighlightFeatures s) = callbacks s
   \<and> selectedFeature (unhighlightFeatures s) = selectedFeature s"
  by (simp add: unhighlightFeatures_eq)

lemma unhighlight_flags:
  "r \<in> set (highlightedFeatures s) \<Longrightarrow> ''highlighted'' \<notin> featureState (unhighlightFeatures s) r"
  by (simp add: unhighlightFeatures_eq)

lemma highlightAll_fields:
  "highlightedFeatures (highlightAll s rs) = highlightedFeatures s @ rs
   \<and> fitBoundsCalls (highlightAll s rs) = fitBoundsCalls s
   \<and> contextMenu (highlightAll s rs) = contextMenu s"
  by (simp add: highlightAll_def)

lemma highlightAll_flags:
  "(''highlighted'' \<in> featureState (highlightAll s rs) r)
     = (r \<in> set rs \<or> ''highlighted'' \<in> featureState s r)"
  by (simp add: highlightAll_def)

lemma zoomToFeatures_B_eq:
  assumes "allBounds e ids"
  shows "zoomToFeatures_B e s ids pad =
     Inr (if ids \<noteq> [] then
            (highlightAll (unhighlightFeatures s)
               (map (\<lambda>(i, p). mapFeature (ap_layer p) i) (resolved e ids)))
              \<lparr>fitBoundsCalls := fitBoundsCalls s @
                 [(boxOf (mergeAll (resolvedBoxes e ids)),
                   (case pad of Some p \<Rightarrow> p | None \<Rightarrow> 100), False)]\<rparr>
          else unhighlightFeatures s)"
proof -
  have "zoomLoop_B e (unhighlightFeatures s) BoxNull ids =
     Inr (highlightAll (unhighlightFeatures s)
            (map (\<lambda>(i, p). mapFeature (ap_layer p) i) (resolved e ids)),
          boxOf (mergeAll (resolvedBoxes e ids)))"
    using zoomLoop_B_eq [OF assms, of "unhighlightFeatures s" None]
    by (simp add: boxOf_def mergeFrom_def)
  then show ?thesis
    by (simp add: zoomToFeatures_B_def Let_def highlightAll_fields unhighlight_fields)
qed

lemma matching_Nil: "matching e [] = []"
  by (simp add: matching_def split: option.splits)

lemma zoomToFeatures_A_eq:
  "zoomToFeatures_A e s ids =
     (if matching e ids \<noteq> [] then
        (highlightAll (unhighlightFeatures s) (map ref (matching e ids)))
          \<lparr>fitBoundsCalls := fitBoundsCalls s @
             [(boxOf (mergeAll (map (bounds e) (matching e ids))), 100, False)]\<rparr>
      else unhighlightFeatures s)"
proof (cases "ids = []")
  case True
  then show ?thesis by (simp add: zoomToFeatures_A_def matching_Nil)
next
  case False
  then show ?thesis
    by (simp add: zoomToFeatures_A_def Let_def zoomLoop_A_eq mergeFrom_def highlightAll_fields
          unhighlight_fields matching_def boxOf_def)
qed

lemma zoomTo_B_eq:
  "zoomTo_B e s f =
     (highlightAll (unhighlightFeatures (s\<lparr>contextMenu := None\<rparr>)) [ref f])
       \<lparr>fitBoundsCalls := fitBoundsCalls s @ [(Box (bounds e f), 100, False)]\<rparr>"
  using highlightAll_step [of "unhighlightFeatures (s\<lparr>contextMenu := None\<rparr>)" "ref f" "[]"]
  by (simp add: zoomTo_B_def Let_def highlightAll_Nil highlightAll_fields unhighlight_fields)

lemma zoomed_highlightAll:
  "zoomed s ((highlightAll (unhighlightFeatures s) rs)\<lparr>fitBoundsCalls := c\<rparr>) rs"
  by (simp add: zoomed_def highlightAll_fields unhighlight_fields highlightAll_flags
        unhighlight_flags)

lemma zoomed_context:
  "zoomed (s\<lparr>contextMenu := None\<rparr>) s' rs = zoomed s s' rs"
  by (simp add: zoomed_def)

lemma zoomed_unhighlight: "zoomed s (unhighlightFeatures s) []"
  by (simp add: zoomed_def unhighlight_fields unhighlight_flags)

lemma resolved_Nil: "resolved e [] = []"
  by (simp add: resolved_def List.map_filter_simps)

lemma unresolved_allBounds:
  "resolved e ids = [] \<Longrightarrow> allBounds e ids \<and> resolvedBoxes e ids = []"
proof (induction ids)
  case Nil
  show ?case by (simp add: allBounds_def resolvedBoxes_def List.map_filter_simps)
next
  case (Cons i ids)
  from Cons.prems have n: "annotation e i = None" "resolved e ids = []"
    by (auto simp: resolved_def List.map_filter_simps split: option.splits if_splits)
  with Cons.IH show ?case
    by (simp add: allBounds_Cons resolvedBoxes_def List.map_filter_simps)
qed

lemma allBounds_boxes:
  "allBounds e ids \<Longrightarrow> length (resolvedBoxes e ids) = length (resolved e ids)"
proof (induction ids)
  case Nil
  show ?case by (simp add: resolved_def resolvedBoxes_def List.map_filter_simps)
next
  case (Cons i ids)
  then show ?case
    by (cases "annotation e i")
       (auto simp: allBounds_Cons resolved_def resolvedBoxes_def List.map_filter_simps)
qed

lemma zoomToFeatures_B_unresolved:
  assumes "ids \<noteq> []" "resolved e ids = []"
  shows "zoomToFeatures_B e s ids pad =
           Inr ((unhighlightFeatures s)
                  \<lparr>fitBoundsCalls := fitBoundsCalls s @
                     [(BoxNull, (case pad of Some p \<Rightarrow> p | None \<Rightarrow> 100), False)]\<rparr>)"
  using assms unresolved_allBounds [OF assms(2)]
  by (simp add: zoomToFeatures_B_eq highlightAll_Nil boxOf_def)

lemma ex_resolved:
  "resolved exEnv [''f1'', ''f3''] =
     [(''f1'', \<lparr>ap_layer = ''organs'', ap_bounds = Some (0, 0, 10, 10), ap_centroid = (5, 5)\<rparr>),
      (''f3'', \<lparr>ap_layer = ''organs'', ap_bounds = Some (5, 5, 20, 20), ap_centroid = (12, 12)\<rparr>)]
   \<and> resolvedBoxes exEnv [''f1'', ''f3''] = [(0, 0, 10, 10), (5, 5, 20, 20)]
   \<and> allBounds exEnv [''f1'', ''f3'']"
  by (simp add: resolved_def resolvedBoxes_def allBounds_def List.map_filter_simps exEnv_def)

lemma ex_unresolved: "resolved exEnv [''nope''] = []"
  by (simp add: resolved_def List.map_filter_simps exEnv_def)

lemma ex_matching: "matching exEnv [''A'', ''B''] = [featA, featB]"
  by (simp add: matching_def exEnv_def featA_def featB_def featC_def)

lemma exZoomed_A_fields:
  "highlightedFeatures exZoomed_A = [ref featA, ref featB]
   \<and> ''highlighted'' \<in> featureState exZoomed_A (ref featA)
   \<and> ''highlighted'' \<in> featureState exZoomed_A (ref featB)
   \<and> ''highlighted'' \<notin> featureState exZoomed_A (ref featC)
   \<and> fitBoundsCalls exZoomed_A = [(Box (0, 0, 20, 20), 100, False)]"
proof -
  have b: "bounds exEnv featA = (0, 0, 10, 10)" "bounds exEnv featB = (5, 5, 20, 20)"
    by (simp_all add: bounds_def featA_def featB_def)
  have n: "ref featC \<noteq> ref featA" "ref featC \<noteq> ref featB"
    by (simp_all add: ref_def featA_def featB_def featC_def)
  have c: "''highlighted'' \<notin> featureState exUi (ref featC)"
    by (simp add: exUi_eq initial_def ref_def featC_def)
  show ?thesis
    using n c
    by (simp add: exZoomed_A_def zoomToFeatures_A_eq ex_matching highlightAll_fields
          highlightAll_flags unhighlight_fields unhighlightFeatures_eq exUi_fields b boxOf_def)
qed

lemma zoomToFeatures_B_missing_bounds:
  "\<not> isl (zoomToFeatures_B exEnv exUi [''f5''] None)
   \<and> fitBoundsCalls (projr (zoomToFeatures_B exEnv exUi [''f5''] None))
       = [(BoxUndefined, 100, False)]
   \<and> isl (zoomToFeatures_B exEnv exUi [''f5'', ''f1''] None)
   \<and> isl (zoomToFeatures_B exEnv exUi [''f1'', ''f5''] None)"
  by (simp add: zoomToFeatures_B_def Let_def exEnv_def highlightFeature_def
        setFeatureState_def unhighlight_fields exUi_fields)

text \<open>
  C4, as the claim states it, fails in two places. In variant A \<open>zoomTo_\<close> neither
  clears the highlights nor highlights its feature: after it the two features
  highlighted before are still the highlights, and the feature zoomed to carries no
  flag. In variant B \<open>zoomToFeatures\<close> with an id that does not resolve still calls
  \<open>fitBounds\<close>, with \<open>null\<close> for the box.
\<close>

theorem zoom_to_counterexample:
  "highlightedFeatures exZoomed_A = [ref featA, ref featB]
   \<and> highlightedFeatures (zoomTo_A exEnv exZoomed_A featC) = [ref featA, ref featB]
   \<and> ''highlighted'' \<in> featureState (zoomTo_A exEnv exZoomed_A featC) (ref featA)
   \<and> ''highlighted'' \<notin> featureState (zoomTo_A exEnv exZoomed_A featC) (ref featC)
   \<and> annotation exEnv ''nope'' = None
   \<and> \<not> isl (zoomToFeatures_B exEnv exUi [''nope''] None)
   \<and> fitBoundsCalls (projr (zoomToFeatures_B exEnv exUi [''nope''] None))
       = [(BoxNull, 100, False)]"
proof -
  have a: "annotation exEnv ''nope'' = None" by (simp add: exEnv_def)
  have b: "\<not> isl (zoomToFeatures_B exEnv exUi [''nope''] None)
     \<and> fitBoundsCalls (projr (zoomToFeatures_B exEnv exUi [''nope''] None))
         = [(BoxNull, 100, False)]"
    using zoomToFeatures_B_unresolved [of "[''nope'']" exEnv exUi None]
    by (simp add: ex_unresolved exUi_fields)
  from a b exZoomed_A_fields show ?thesis
    by (simp add: zoomTo_A_def Let_def)
qed

text \<open>
  C4, amended. Variant B: \<open>zoomTo_\<close> clears the highlights, highlights its feature and
  fits the camera to the feature's bounding box with padding 100 and no animation. When
  every annotation record the ids resolve to has bounds, \<open>zoomToFeatures\<close> returns,
  clears the highlights and highlights the feature of every id that resolves, in order;
  when some id resolves it fits the camera to the merge of the records' bounds with the
  caller's padding (100 by default), and with no id at all it fits nothing. Variant A:
  \<open>zoomTo_\<close> fits the camera to the feature's box with padding 100 and leaves the
  highlights as they are; \<open>zoomToFeatures\<close> clears the highlights, highlights the
  rendered features whose id is one of the ids and fits the camera to the merge of their
  boxes with padding 100, and when no rendered feature matches (also for no id) it
  highlights nothing and fits nothing.
\<close>

theorem zoom_to:
  "(zoomed s (zoomTo_B e s f) [ref f]
      \<and> fitBoundsCalls (zoomTo_B e s f) = fitBoundsCalls s @ [(Box (bounds e f), 100, False)])
   \<and> (allBounds e ids \<longrightarrow>
        (\<exists>s'. zoomToFeatures_B e s ids pad = Inr s'
           \<and> zoomed s s' (map (\<lambda>(i, p). mapFeature (ap_layer p) i) (resolved e ids))
           \<and> (resolved e ids \<noteq> [] \<longrightarrow>
                (\<exists>b. mergeAll (resolvedBoxes e ids) = Some b
                   \<and> fitBoundsCalls s' = fitBoundsCalls s @
                       [(Box b, (case pad of Some p \<Rightarrow> p | None \<Rightarrow> 100), False)]))
           \<and> (ids = [] \<longrightarrow> fitBoundsCalls s' = fitBoundsCalls s)))
   \<and> (highlightedFeatures (zoomTo_A e s f) = highlightedFeatures s
      \<and> featureState (zoomTo_A e s f) = featureState s
      \<and> fitBoundsCalls (zoomTo_A e s f) = fitBoundsCalls s @ [(Box (bounds e f), 100, False)])
   \<and> (zoomed s (zoomToFeatures_A e s ids) (map ref (matching e ids))
      \<and> (matching e ids \<noteq> [] \<longrightarrow>
           (\<exists>b. mergeAll (map (bounds e) (matching e ids)) = Some b
              \<and> fitBoundsCalls (zoomToFeatures_A e s ids) = fitBoundsCalls s @
                  [(Box b, 100, False)]))
      \<and> (matching e ids = [] \<longrightarrow>
           fitBoundsCalls (zoomToFeatures_A e s ids) = fitBoundsCalls s))"
proof -
  have b1: "zoomed s (zoomTo_B e s f) [ref f]
      \<and> fitBoundsCalls (zoomTo_B e s f) = fitBoundsCalls s @ [(Box (bounds e f), 100, False)]"
    using zoomed_highlightAll [where s = "s\<lparr>contextMenu := None\<rparr>" and rs = "[ref f]"]
    by (simp add: zoomTo_B_eq zoomed_context)
  have b2: "\<exists>s'. zoomToFeatures_B e s ids pad = Inr s'
           \<and> zoomed s s' (map (\<lambda>(i, p). mapFeature (ap_layer p) i) (resolved e ids))
           \<and> (resolved e ids \<noteq> [] \<longrightarrow>
                (\<exists>b. mergeAll (resolvedBoxes e ids) = Some b
                   \<and> fitBoundsCalls s' = fitBoundsCalls s @
                       [(Box b, (case pad of Some p \<Rightarrow> p | None \<Rightarrow> 100), False)]))
           \<and> (ids = [] \<longrightarrow> fitBoundsCalls s' = fitBoundsCalls s)"
    if ab: "allBounds e ids"
  proof (cases "ids = []")
    case True
    then show ?thesis
      unfolding zoomToFeatures_B_eq [OF ab]
      using zoomed_unhighlight [of s]
      by (simp add: resolved_Nil unhighlight_fields)
  next
    case False
    have some: "\<exists>b. mergeAll (resolvedBoxes e ids) = Some b" if "resolved e ids \<noteq> []"
    proof -
      from that allBounds_boxes [OF ab] have "resolvedBoxes e ids \<noteq> []" by auto
      then show ?thesis by (metis mergeAll.simps(2) neq_Nil_conv)
    qed
    from False show ?thesis
      using zoomed_highlightAll [where s = s] some
      by (auto simp: zoomToFeatures_B_eq [OF ab] boxOf_def)
  qed
  have a1: "highlightedFeatures (zoomTo_A e s f) = highlightedFeatures s
      \<and> featureState (zoomTo_A e s f) = featureState s
      \<and> fitBoundsCalls (zoomTo_A e s f) = fitBoundsCalls s @ [(Box (bounds e f), 100, False)]"
    by (simp add: zoomTo_A_def Let_def)
  have a2: "zoomed s (zoomToFeatures_A e s ids) (map ref (matching e ids))"
    using zoomed_highlightAll [where s = s] zoomed_unhighlight [of s]
    by (simp add: zoomToFeatures_A_eq)
  have a3: "matching e ids \<noteq> [] \<longrightarrow>
           (\<exists>b. mergeAll (map (bounds e) (matching e ids)) = Some b
              \<and> fitBoundsCalls (zoomToFeatures_A e s ids) = fitBoundsCalls s @
                  [(Box b, 100, False)])"
  proof (cases "matching e ids")
    case Nil
    then show ?thesis by simp
  next
    case (Cons g gs)
    then have "mergeAll (map (bounds e) (matching e ids))
        = Some (foldl expandBounds (bounds e g) (map (bounds e) gs))" by simp
    with Cons show ?thesis
      by (simp add: zoomToFeatures_A_eq boxOf_def del: split_paired_Ex)
  qed
  have a4: "matching e ids = [] \<longrightarrow>
           fitBoundsCalls (zoomToFeatures_A e s ids) = fitBoundsCalls s"
    by (simp add: zoomToFeatures_A_eq unhighlight_fields)
  from b1 b2 a1 a2 a3 a4 show ?thesis by blast
qed

theorem zoom_to_witness:
  "allBounds exEnv [''f1'', ''f3'']
   \<and> resolved exEnv [''f1'', ''f3''] \<noteq> []
   \<and> \<not> isl (zoomToFeatures_B exEnv exUi [''f1'', ''f3''] None)
   \<and> highlightedFeatures (projr (zoomToFeatures_B exEnv exUi [''f1'', ''f3''] None))
       = [(''organs'', ''f1''), (''organs'', ''f3'')]
   \<and> ''highlighted'' \<in> featureState (projr (zoomToFeatures_B exEnv exUi [''f1'', ''f3''] None))
         (''organs'', ''f1'')
   \<and> ''highlighted'' \<in> featureState (projr (zoomToFeatures_B exEnv exUi [''f1'', ''f3''] None))
         (''organs'', ''f3'')
   \<and> fitBoundsCalls (projr (zoomToFeatures_B exEnv exUi [''f1'', ''f3''] None))
       = [(Box (0, 0, 20, 20), 100, False)]
   \<and> fitBoundsCalls (projr (zoomToFeatures_B exEnv exUi [''f1'', ''f3''] (Some 30)))
       = [(Box (0, 0, 20, 20), 30, False)]
   \<and> allBounds exEnv []
   \<and> fitBoundsCalls (projr (zoomToFeatures_B exEnv exUi [] None)) = []
   \<and> highlightedFeatures (zoomTo_B exEnv exZoomed_A featC) = [ref featC]
   \<and> ''highlighted'' \<notin> featureState (zoomTo_B exEnv exZoomed_A featC) (ref featA)
   \<and> matching exEnv [''A'', ''B''] \<noteq> []
   \<and> fitBoundsCalls (zoomToFeatures_A exEnv exUi [''A'', ''B'']) = [(Box (0, 0, 20, 20), 100, False)]
   \<and> matching exEnv [''nope''] = []
   \<and> fitBoundsCalls (zoomToFeatures_A exEnv exUi [''nope'']) = []"
proof -
  have ab: "allBounds exEnv [''f1'', ''f3'']" "allBounds exEnv []"
    using ex_resolved by (simp_all add: allBounds_def [of exEnv "[]"])
  have r: "resolved exEnv [''f1'', ''f3''] \<noteq> []" by (simp add: ex_resolved)
  have m: "matching exEnv [''A'', ''B''] \<noteq> []" by (simp add: ex_matching)
  have mn: "matching exEnv [''nope''] = []"
    by (simp add: matching_def exEnv_def featA_def featB_def featC_def)
  from zoom_to [of exUi exEnv featA "[''f1'', ''f3'']" None] ab(1) r
  obtain s1 where s1: "zoomToFeatures_B exEnv exUi [''f1'', ''f3''] None = Inr s1"
    "zoomed exUi s1 [(''organs'', ''f1''), (''organs'', ''f3'')]"
    "fitBoundsCalls s1 = [(Box (0, 0, 20, 20), 100, False)]"
    by (auto simp: ex_resolved mapFeature_def exUi_fields)
  from zoom_to [of exUi exEnv featA "[''f1'', ''f3'']" "Some 30"] ab(1) r
  obtain s2 where s2: "zoomToFeatures_B exEnv exUi [''f1'', ''f3''] (Some 30) = Inr s2"
    "fitBoundsCalls s2 = [(Box (0, 0, 20, 20), 30, False)]"
    by (auto simp: ex_resolved mapFeature_def exUi_fields)
  from zoom_to [of exUi exEnv featA "[]" None] ab(2)
  obtain s3 where s3: "zoomToFeatures_B exEnv exUi [] None = Inr s3" "fitBoundsCalls s3 = []"
    by (auto simp: exUi_fields)
  have z2: "zoomed exZoomed_A (zoomTo_B exEnv exZoomed_A featC) [ref featC]"
    using zoom_to [of exZoomed_A exEnv featC "[]" None] by blast
  have n: "ref featA \<noteq> ref featC" by (simp add: ref_def featA_def featC_def)
  have f4: "fitBoundsCalls (zoomToFeatures_A exEnv exUi [''A'', ''B''])
       = [(Box (0, 0, 20, 20), 100, False)]"
    using zoom_to [of exUi exEnv featA "[''A'', ''B'']" None] m
    by (auto simp: ex_matching exUi_fields bounds_def featA_def featB_def)
  have f5: "fitBoundsCalls (zoomToFeatures_A exEnv exUi [''nope'']) = []"
    using zoom_to [of exUi exEnv featA "[''nope'']" None] mn by (simp add: exUi_fields)
  from s1 have h1: "highlightedFeatures s1 = [(''organs'', ''f1''), (''organs'', ''f3'')]"
    "''highlighted'' \<in> featureState s1 (''organs'', ''f1'')"
    "''highlighted'' \<in> featureState s1 (''organs'', ''f3'')"
    by (simp_all add: zoomed_def)
  from z2 n exZoomed_A_fields
  have h2: "highlightedFeatures (zoomTo_B exEnv exZoomed_A featC) = [ref featC]"
    "''highlighted'' \<notin> featureState (zoomTo_B exEnv exZoomed_A featC) (ref featA)"
    by (simp_all add: zoomed_def)
  from ab r m mn s1 s2 s3 f4 f5 h1 h2 show ?thesis by simp
qed

subsection \<open>Query dispatch\<close>

lemma queryData_fields:
  "contextMenu (queryData s m) = contextMenu s
   \<and> highlightedFeatures (queryData s m) = highlightedFeatures s
   \<and> featureState (queryData s m) = featureState s
   \<and> queryCalls (queryData s m) = queryCalls s
   \<and> cursor (queryData s m) = cursor s
   \<and> inQuery (queryData s m) = inQuery s
   \<and> callbacks (queryData s m) = (if m \<noteq> [] then callbacks s @ [(''query-data'', m)] else callbacks s)"
  by (simp add: queryData_def)

lemma query_A_forward:
  assumes "qtype \<noteq> ''data''" "getAnnotation e fid = Some a"
  shows "\<exists>s'. query_A e s qtype fid = Inr s'
     \<and> queryCalls s' = queryCalls s @ [(qtype, ann_url a, ann_models a)]
     \<and> cursor s' = ''progress'' \<and> inQuery s' \<and> afterDispatch s s'"
  using assms
  by (simp add: query_A_def Let_def afterDispatch_def unhighlight_fields unhighlight_flags)

lemma query_B_no_forward:
  assumes "qtype \<noteq> ''data''"
  shows "queryCalls (query_B e s qtype fid) = queryCalls s
     \<and> cursor (query_B e s qtype fid) = ''progress'' \<and> inQuery (query_B e s qtype fid)
     \<and> afterDispatch s (query_B e s qtype fid)"
  using assms
  by (simp add: query_B_def Let_def afterDispatch_def unhighlight_fields unhighlight_flags)

lemma query_A_data:
  "\<exists>s'. query_A e s ''data'' fid = Inr s' \<and> afterDispatch s s'
     \<and> queryCalls s' = queryCalls s \<and> cursor s' = cursor s \<and> inQuery s' = inQuery s"
  by (simp add: query_A_def Let_def afterDispatch_def unhighlight_fields unhighlight_flags
        queryData_fields)

lemma query_B_data:
  "afterDispatch s (query_B e s ''data'' fid)
     \<and> queryCalls (query_B e s ''data'' fid) = queryCalls s
     \<and> cursor (query_B e s ''data'' fid) = cursor s
     \<and> inQuery (query_B e s ''data'' fid) = inQuery s"
  by (simp add: query_B_def Let_def afterDispatch_def unhighlight_fields unhighlight_flags
        queryData_fields)

text \<open>
  C6, as the claim states it, fails for variant B: an action of kind \<open>edges\<close> or
  \<open>nodes\<close> on a feature whose annotation has a URL and a model makes no call to the
  query interface.
\<close>

theorem query_dispatch_counterexample:
  "getAnnotation exEnv (Some ''B'') = Some annB
   \<and> ann_url annB = Some ''heart.json''
   \<and> queryCalls (query_B exEnv exMenu_B ''edges'' (Some ''B'')) = []
   \<and> queryCalls (query_B exEnv exMenu_B ''nodes'' (Some ''B'')) = []"
proof -
  have q: "queryCalls exMenu_B = []"
  proof -
    have "\<not> (1000::int) < lastContextTime exUi + 100" by (simp add: exUi_fields)
    from contextMenuEvent_B_found [OF this ex_smallest_active]
    show ?thesis
      by (simp add: exMenu_B_def selectFeature_def unselectFeatures_def setFeatureState_def
            removeFeatureState_def Let_def exUi_fields split: option.splits)
  qed
  have g: "getAnnotation exEnv (Some ''B'') = Some annB" "ann_url annB = Some ''heart.json''"
    by (simp_all add: exEnv_def annB_def)
  have "queryCalls (query_B exEnv exMenu_B ''edges'' (Some ''B'')) = []"
    "queryCalls (query_B exEnv exMenu_B ''nodes'' (Some ''B'')) = []"
    using query_B_no_forward [of "''edges''" exEnv exMenu_B "Some ''B''"]
      query_B_no_forward [of "''nodes''" exEnv exMenu_B "Some ''B''"] q
    by simp_all
  with g show ?thesis by blast
qed


text \<open>
  C6, amended. In variant A an action of a kind other than \<open>data\<close> whose annotation
  resolves forwards the kind, the annotation's URL and its models to the query
  interface, sets the cursor to \<open>progress\<close> and the in-query flag to true. In variant B
  the call of the query interface is disabled: such an action makes no call to it, and
  sets the cursor and the in-query flag all the same. In both variants, after such a
  dispatch and after one of kind \<open>data\<close>, the context menu is hidden, the highlight set
  is empty and the modal flag is false; a dispatch of kind \<open>data\<close> changes neither the
  cursor nor the in-query flag and calls no query interface.
\<close>

theorem query_dispatch:
  "(qtype \<noteq> ''data'' \<and> getAnnotation e fid = Some a \<longrightarrow>
      (\<exists>s'. query_A e s qtype fid = Inr s'
         \<and> queryCalls s' = queryCalls s @ [(qtype, ann_url a, ann_models a)]
         \<and> cursor s' = ''progress'' \<and> inQuery s' \<and> afterDispatch s s'))
   \<and> (qtype \<noteq> ''data'' \<longrightarrow>
        queryCalls (query_B e s qtype fid) = queryCalls s
        \<and> cursor (query_B e s qtype fid) = ''progress'' \<and> inQuery (query_B e s qtype fid)
        \<and> afterDispatch s (query_B e s qtype fid))
   \<and> (\<exists>s'. query_A e s ''data'' fid = Inr s' \<and> afterDispatch s s'
         \<and> queryCalls s' = queryCalls s \<and> cursor s' = cursor s \<and> inQuery s' = inQuery s)
   \<and> (afterDispatch s (query_B e s ''data'' fid)
        \<and> queryCalls (query_B e s ''data'' fid) = queryCalls s
        \<and> cursor (query_B e s ''data'' fid) = cursor s
        \<and> inQuery (query_B e s ''data'' fid) = inQuery s)"
  using query_A_forward [of qtype e fid a s] query_B_no_forward [of qtype e s fid]
    query_A_data [of e s fid] query_B_data [of s e fid]
  by blast

theorem query_dispatch_witness:
  "''edges'' \<noteq> ''data'' \<and> getAnnotation exEnv (Some ''B'') = Some annB
   \<and> modal exMenu_A \<and> contextMenu exMenu_A \<noteq> None
   \<and> (\<exists>s'. query_A exEnv exMenu_A ''edges'' (Some ''B'') = Inr s'
          \<and> queryCalls s' = [(''edges'', Some ''heart.json'', [''UBERON:0000948''])]
          \<and> cursor s' = ''progress'' \<and> inQuery s' \<and> contextMenu s' = None \<and> \<not> modal s')
   \<and> highlightedFeatures exZoomed_A = [ref featA, ref featB]
   \<and> ''highlighted'' \<in> featureState exZoomed_A (ref featA)
   \<and> ''highlighted'' \<notin> featureState (query_B exEnv exZoomed_A ''nodes'' (Some ''B'')) (ref featA)
   \<and> highlightedFeatures (query_B exEnv exZoomed_A ''nodes'' (Some ''B'')) = []"
proof -
  have g: "getAnnotation exEnv (Some ''B'') = Some annB" by (simp add: exEnv_def)
  have d: "''edges'' \<noteq> ''data''" "''nodes'' \<noteq> ''data''" by simp_all
  from query_dispatch [of "''edges''" exEnv "Some ''B''" annB exMenu_A] d g
  obtain s' where s': "query_A exEnv exMenu_A ''edges'' (Some ''B'') = Inr s'"
    "queryCalls s' = queryCalls exMenu_A @ [(''edges'', ann_url annB, ann_models annB)]"
    "cursor s' = ''progress''" "inQuery s'" "afterDispatch exMenu_A s'"
    by blast
  then have a: "\<exists>s'. query_A exEnv exMenu_A ''edges'' (Some ''B'') = Inr s'
          \<and> queryCalls s' = [(''edges'', Some ''heart.json'', [''UBERON:0000948''])]
          \<and> cursor s' = ''progress'' \<and> inQuery s' \<and> contextMenu s' = None \<and> \<not> modal s'"
    using exMenu_A_fields by (simp add: afterDispatch_def annB_def)
  from query_dispatch [of "''nodes''" exEnv "Some ''B''" annB exZoomed_A] d
  have "afterDispatch exZoomed_A (query_B exEnv exZoomed_A ''nodes'' (Some ''B''))" by blast
  then have b: "''highlighted'' \<notin> featureState (query_B exEnv exZoomed_A ''nodes'' (Some ''B''))
         (ref featA)"
    "highlightedFeatures (query_B exEnv exZoomed_A ''nodes'' (Some ''B'')) = []"
    using exZoomed_A_fields by (simp_all add: afterDispatch_def)
  from a b d g exMenu_A_fields exZoomed_A_fields show ?thesis by blast
qed


subsection \<open>Long press\<close>

text \<open>
  C8, amended (both variants). A \<open>touchend\<close> more than 500 ms after its \<open>touchstart\<close>
  runs the context-menu handler; a \<open>touchend\<close> at 500 ms or sooner does nothing. So a
  press of more than 500 ms on an annotated polygon, past the debounce of the context
  menu, shows the menu built for that polygon and sets the modal flag.
\<close>

theorem long_press:
  "(t0 + 500 < t1 \<longrightarrow>
      touchend_A e (touchstart s t0) ev t1 = contextMenuEvent_A e (touchstart s t0) ev t1
      \<and> touchend_B e (touchstart s t0) ev t1 = contextMenuEvent_B e (touchstart s t0) ev t1)
   \<and> (t1 \<le> t0 + 500 \<longrightarrow>
      touchend_A e (touchstart s t0) ev t1 = touchstart s t0
      \<and> touchend_B e (touchstart s t0) ev t1 = touchstart s t0)
   \<and> (t0 + 500 < t1 \<and> \<not> t1 < lastContextTime s + 100
        \<and> smallestAnnotatedPolygonFeature e s (activeFeaturesAtEvent e ev) = Some f \<longrightarrow>
      contextMenu (touchend_A e (touchstart s t0) ev t1)
        = Some (lngLat ev, contextMenuItems e (prop_id f) (getAnnotation e (prop_id f)) f)
      \<and> modal (touchend_A e (touchstart s t0) ev t1)
      \<and> contextMenu (touchend_B e (touchstart s t0) ev t1)
        = Some (lngLat ev, contextMenuItems e (prop_id f) (getAnnotation e (prop_id f)) f)
      \<and> modal (touchend_B e (touchstart s t0) ev t1))"
proof -
  have long: "t0 + 500 < t1 \<longrightarrow>
      touchend_A e (touchstart s t0) ev t1 = contextMenuEvent_A e (touchstart s t0) ev t1
      \<and> touchend_B e (touchstart s t0) ev t1 = contextMenuEvent_B e (touchstart s t0) ev t1"
    by (simp add: touchend_A_def touchend_B_def touchstart_def)
  have short: "t1 \<le> t0 + 500 \<longrightarrow>
      touchend_A e (touchstart s t0) ev t1 = touchstart s t0
      \<and> touchend_B e (touchstart s t0) ev t1 = touchstart s t0"
    by (simp add: touchend_A_def touchend_B_def touchstart_def)
  have menu: "contextMenu (touchend_A e (touchstart s t0) ev t1)
        = Some (lngLat ev, contextMenuItems e (prop_id f) (getAnnotation e (prop_id f)) f)
      \<and> modal (touchend_A e (touchstart s t0) ev t1)
      \<and> contextMenu (touchend_B e (touchstart s t0) ev t1)
        = Some (lngLat ev, contextMenuItems e (prop_id f) (getAnnotation e (prop_id f)) f)
      \<and> modal (touchend_B e (touchstart s t0) ev t1)"
    if h: "t0 + 500 < t1" "\<not> t1 < lastContextTime s + 100"
      "smallestAnnotatedPolygonFeature e s (activeFeaturesAtEvent e ev) = Some f"
  proof -
    have d: "\<not> t1 < lastContextTime (touchstart s t0) + 100"
      using h(2) by (simp add: touchstart_def)
    have r: "smallestAnnotatedPolygonFeature e (touchstart s t0) (activeFeaturesAtEvent e ev)
               = Some f"
      using h(3) smallest_store [of "touchstart s t0" s e "activeFeaturesAtEvent e ev"]
      by (simp add: touchstart_def)
    from long h(1) contextMenuEvent_A_found [OF d r] contextMenuEvent_B_found [OF d r]
    show ?thesis by simp
  qed
  from long short menu show ?thesis by blast
qed

lemma ex_touch_smallest:
  "smallestAnnotatedPolygonFeature exEnv (touchstart exUi t) (activeFeaturesAtEvent exEnv exEvent)
     = Some featB"
  using smallest_store [of "touchstart exUi t" exUi exEnv "activeFeaturesAtEvent exEnv exEvent"]
    ex_smallest_active
  by (simp add: touchstart_def)

lemma ex_touch_menu:
  assumes "100 \<le> t1"
  shows "contextMenu (contextMenuEvent_A exEnv (touchstart exUi t0) exEvent t1) \<noteq> None
     \<and> contextMenu (contextMenuEvent_B exEnv (touchstart exUi t0) exEvent t1) \<noteq> None"
proof -
  have "\<not> t1 < lastContextTime (touchstart exUi t0) + 100"
    using assms by (simp add: touchstart_def exUi_fields)
  from contextMenuEvent_A_found [OF this ex_touch_smallest]
    contextMenuEvent_B_found [OF this ex_touch_smallest]
  show ?thesis by simp
qed

text \<open>
  C8, as the claim states it, fails at a duration of exactly 500 ms: the context-menu
  handler would show a menu there, and the \<open>touchend\<close> handler leaves the state as
  \<open>touchstart\<close> left it.
\<close>

theorem long_press_counterexample:
  "(1500::int) - 1000 \<ge> 500
   \<and> contextMenu (contextMenuEvent_A exEnv (touchstart exUi 1000) exEvent 1500) \<noteq> None
   \<and> contextMenu (touchend_A exEnv (touchstart exUi 1000) exEvent 1500) = None
   \<and> touchend_A exEnv (touchstart exUi 1000) exEvent 1500 = touchstart exUi 1000
   \<and> contextMenu (contextMenuEvent_B exEnv (touchstart exUi 1000) exEvent 1500) \<noteq> None
   \<and> contextMenu (touchend_B exEnv (touchstart exUi 1000) exEvent 1500) = None
   \<and> touchend_B exEnv (touchstart exUi 1000) exEvent 1500 = touchstart exUi 1000"
  using ex_touch_menu [of 1500 1000]
  by (simp add: touchend_A_def touchend_B_def touchstart_def exUi_fields)

theorem long_press_witness:
  "(1000::int) + 500 < 1501
   \<and> contextMenu (touchend_A exEnv (touchstart exUi 1000) exEvent 1501) \<noteq> None
   \<and> contextMenu (touchend_B exEnv (touchstart exUi 1000) exEvent 1501) \<noteq> None
   \<and> (1499::int) \<le> 1000 + 500
   \<and> touchend_A exEnv (touchstart exUi 1000) exEvent 1499 = touchstart exUi 1000
   \<and> touchend_B exEnv (touchstart exUi 1000) exEvent 1499 = touchstart exUi 1000"
proof -
  have a: "contextMenu (touchend_A exEnv (touchstart exUi 1000) exEvent 1501) \<noteq> None
      \<and> contextMenu (touchend_B exEnv (touchstart exUi 1000) exEvent 1501) \<noteq> None"
    using long_press [of 1000 1501 exEnv exUi exEvent featB] ex_touch_menu [of 1501 1000]
    by simp
  have b: "touchend_A exEnv (touchstart exUi 1000) exEvent 1499 = touchstart exUi 1000
      \<and> touchend_B exEnv (touchstart exUi 1000) exEvent 1499 = touchstart exUi 1000"
    using long_press [of 1000 1499 exEnv exUi exEvent featB] by simp
  from a b show ?thesis by simp
qed


subsection \<open>Clicks in variant A\<close>

lemma constructor_layerSwitcher:
  assumes "constructor layers annotations = Inr s"
  shows "layerSwitcher s = None"
proof -
  have f: "layerSwitcher (flagAnnotation st entry) = layerSwitcher st" for st entry
    by (simp add: flagAnnotation_def setFeatureState_def Let_def)
  have g: "layerSwitcher (fold (\<lambda>entry st. flagAnnotation st entry) xs st) = layerSwitcher st"
    for xs st
    by (induction xs arbitrary: st) (simp_all add: f)
  from assms show ?thesis
    by (auto simp: constructor_def Let_def g initial_def split: if_splits)
qed

lemma ex_constructor:
  "constructor [\<lparr>layer_id = ''organs'', background_for = None\<rparr>]
     [(''A'', annA), (''B'', annB), (''C'', annC)] = Inr exUi"
  by (simp add: exUi_def constructor_def truthy_def Let_def)

text \<open>
  C7. The claim says a click in variant A never raises and ends with the highlight set
  empty. On the controller the constructor builds, \<open>this._layerSwitcher\<close> is undefined,
  so the first statement of \<open>clickEvent_\<close> raises a \<open>TypeError\<close> and the state stays as
  it was; it still does after \<open>zoomToFeatures\<close> has highlighted features, and the
  highlights then stay.
\<close>

theorem clickEvent_A_raises:
  assumes "constructor layers annotations = Inr s"
  shows "clickEvent_A e s ev = Inl (TypeError, s)
       \<and> clickEvent_A e (zoomToFeatures_A e s ids) ev = Inl (TypeError, zoomToFeatures_A e s ids)"
proof -
  have n: "layerSwitcher s = None" by (rule constructor_layerSwitcher [OF assms])
  have "layerSwitcher (zoomToFeatures_A e s ids) = layerSwitcher s"
    by (simp add: zoomToFeatures_A_eq highlightAll_def unhighlightFeatures_eq)
  with n show ?thesis by (simp add: clickEvent_A_def)
qed

theorem clickEvent_A_raises_witness:
  "constructor [\<lparr>layer_id = ''organs'', background_for = None\<rparr>]
     [(''A'', annA), (''B'', annB), (''C'', annC)] = Inr exUi
   \<and> clickEvent_A exEnv exUi exEvent = Inl (TypeError, exUi)
   \<and> clickEvent_A exEnv exZoomed_A exEvent = Inl (TypeError, exZoomed_A)
   \<and> highlightedFeatures exZoomed_A = [ref featA, ref featB]"
  using clickEvent_A_raises [OF ex_constructor, of exEnv exEvent "[''A'', ''B'']"]
    ex_constructor exZoomed_A_fields
  by (simp add: exZoomed_A_def)

end
